theory Spec2Isabelle
  imports Complex_Main "HOL-Library.Char_ord" "HOL-Library.List_Lexorder" "HOL-Library.Sublist"
begin

section \<open>Python values the connector relies on\<close>

text \<open>
  The exceptions the modelled code can raise. \<open>PyException m\<close> is the plain
  \<^verbatim>\<open>Exception(m)\<close> of the \<^verbatim>\<open>api\<close> property, \<open>NotImplementedError\<close> the one of
  the unsupported capabilities, \<open>StopIteration\<close> the one of a paging cursor that has
  no page left, \<open>TypeError\<close> the one of hashing an unhashable dictionary key,
  \<open>OSError\<close> the one of a file operation on a path that is a directory,
  \<open>JSONDecodeError\<close> and \<open>WrongTypeError\<close> the two that \<^verbatim>\<open>get_all_collabs\<close>
  catches, and \<open>OtherError\<close> any other exception of a library call.
\<close>

datatype error =
    PyException string
  | NotImplementedError
  | StopIteration
  | TypeError
  | OSError
  | JSONDecodeError
  | WrongTypeError
  | OtherError string

text \<open>
  The two shapes of Python value that \<^verbatim>\<open>from_threatexchange_json\<close> compares with
  \<^verbatim>\<open>==\<close>: a string and a tuple. Python's \<^verbatim>\<open>==\<close> between a tuple and a string is
  False; the datatype's equality is the same.
\<close>

datatype py_value = PyStr string | PyTuple "py_value list"

text \<open>
  A Python \<^verbatim>\<open>dict\<close> keeps insertion order: assigning to a key that is present
  replaces the value in place, assigning to a new key appends it. \<open>dict_set\<close> is
  \<^verbatim>\<open>d[k] = v\<close>, \<open>map_of d k\<close> is \<^verbatim>\<open>d.get(k)\<close>, \<open>map fst d\<close> is \<^verbatim>\<open>list(d)\<close>
  and \<open>map snd d\<close> is \<^verbatim>\<open>list(d.values())\<close>.
\<close>

fun dict_set :: "('k \<times> 'v) list \<Rightarrow> 'k \<Rightarrow> 'v \<Rightarrow> ('k \<times> 'v) list" where
  "dict_set [] k v = [(k, v)]"
| "dict_set ((k', v') # kvs) k v =
     (if k' = k then (k', v) # kvs else (k', v') # dict_set kvs k v)"

section \<open>fetcher/apis/fb\_threatexchange\_api.py\<close>

subsection \<open>Data\<close>

text \<open>
  \<^verbatim>\<open>state.SignalOpinionCategory\<close>, \<^verbatim>\<open>state.SignalOpinion\<close> and
  \<^verbatim>\<open>FBThreatExchangeOpinion\<close>, which adds \<^verbatim>\<open>descriptor_id\<close>. The tags of an opinion
  are a Python list (from a descriptor) or the empty \<^verbatim>\<open>set()\<close>; both are modelled as
  a list of strings, \<^verbatim>\<open>set()\<close> being \<open>[]\<close>.
\<close>

datatype SignalOpinionCategory = FALSE_POSITIVE | WORTH_INVESTIGATING | TRUE_POSITIVE

record SignalOpinion =
  owner :: int
  category :: SignalOpinionCategory
  tags :: "string list"

record FBThreatExchangeOpinion = SignalOpinion +
  descriptor_id :: "int option"

definition REACTION_DESCRIPTOR_ID :: int where
  "REACTION_DESCRIPTOR_ID = - 1"

record FBThreatExchangeIndicatorRecord =
  opinions :: "FBThreatExchangeOpinion list"

text \<open>
  \<^verbatim>\<open>FBThreatExchangeCheckpoint\<close>: two integer fields, seconds since the epoch.
\<close>

record FBThreatExchangeCheckpoint =
  update_time :: int
  last_fetch_time :: int

text \<open>
  \<^verbatim>\<open>CollaborationConfigBase\<close> (fetcher/collab\_config.py) and its extension
  \<^verbatim>\<open>FBThreatExchangeCollabConfig\<close>.
\<close>

record CollaborationConfigBase =
  name :: string
  api :: string
  enabled :: bool
  only_signal_types :: "string set"
  not_signal_types :: "string set"
  only_owners :: "int set"
  not_owners :: "int set"
  only_tags :: "string set"
  not_tags :: "string set"

record FBThreatExchangeCollabConfig = CollaborationConfigBase +
  privacy_group :: int
  app_token_override :: "string option"

text \<open>
  The JSON of one update of the threat\_updates endpoint, as far as
  \<^verbatim>\<open>from_threatexchange_json\<close> and \<^verbatim>\<open>fetch_once\<close> read it. The fields the code indexes
  with \<^verbatim>\<open>[...]\<close> are record fields, holding the value after the code's \<^verbatim>\<open>int(...)\<close>
  conversion where it applies one; the fields it reads with \<^verbatim>\<open>.get(..., [])\<close> are
  optional. \<open>te_tags\<close> keeps the three cases of \<^verbatim>\<open>td_json.get("tags", [])\<close>: the key
  is absent, the value is a list of strings, or it is a dict whose \<^verbatim>\<open>"data"\<close> entries
  carry the strings under \<^verbatim>\<open>"text"\<close>.
\<close>

record reaction =
  rxn_key :: string
  rxn_value :: int

datatype te_tags = TagsAbsent | TagsList "string list" | TagsDict "string list"

record ThreatDescriptorJSON =
  td_id :: int
  td_owner_id :: int
  td_status :: string
  td_tags :: te_tags
  td_reactions :: "reaction list option"

record ThreatUpdateJSON =
  should_delete :: bool
  descriptors :: "ThreatDescriptorJSON list"
  threat_type :: string
  indicator :: string
  time :: int

subsection \<open>FBThreatExchangeCheckpoint\<close>

text \<open>
  \<open>is_stale\<close> takes the value of \<^verbatim>\<open>time.time()\<close> as a real number of seconds.
\<close>

definition is_stale :: "real \<Rightarrow> FBThreatExchangeCheckpoint \<Rightarrow> bool" where
  "is_stale now self \<longleftrightarrow> now - real_of_int (last_fetch_time self) > 3600 * 24 * 85"

definition get_progress_timestamp :: "FBThreatExchangeCheckpoint \<Rightarrow> int" where
  "get_progress_timestamp self = update_time self"

subsection \<open>FBThreatExchangeIndicatorRecord.from\_threatexchange\_json\<close>

text \<open>
  Lines 90 to 109: the opinion built from one descriptor. \<open>status\<close> is the
  one-element tuple the source builds, compared with two strings.
\<close>

definition descriptor_tags :: "ThreatDescriptorJSON \<Rightarrow> string list" where
  "descriptor_tags td_json =
     (case td_tags td_json of
        TagsAbsent \<Rightarrow> []
      | TagsList ts \<Rightarrow> ts
      | TagsDict ts \<Rightarrow> sort ts)"

definition descriptor_category :: "ThreatDescriptorJSON \<Rightarrow> SignalOpinionCategory" where
  "descriptor_category td_json =
     (let status = PyTuple [PyStr (td_status td_json)] in
      if status = PyStr ''MALICIOUS'' then TRUE_POSITIVE
      else if status = PyStr ''NON_MALICIOUS'' then FALSE_POSITIVE
      else WORTH_INVESTIGATING)"

definition descriptor_opinion :: "ThreatDescriptorJSON \<Rightarrow> FBThreatExchangeOpinion" where
  "descriptor_opinion td_json =
     \<lparr>owner = td_owner_id td_json,
      category = descriptor_category td_json,
      tags = descriptor_tags td_json,
      descriptor_id = Some (td_id td_json)\<rparr>"

text \<open>Lines 111 to 119: one reaction updates the implicit opinions.\<close>

definition reaction_step ::
  "(int \<times> SignalOpinionCategory) list \<Rightarrow> reaction \<Rightarrow> (int \<times> SignalOpinionCategory) list" where
  "reaction_step implicit_opinions r =
     (let rxn = rxn_key r; ownr = rxn_value r in
      if rxn = ''HELPFUL'' then dict_set implicit_opinions ownr TRUE_POSITIVE
      else if rxn = ''DISAGREE_WITH_TAGS'' \<and> map_of implicit_opinions ownr = None
        then dict_set implicit_opinions ownr FALSE_POSITIVE
      else implicit_opinions)"

definition descriptor_reactions :: "ThreatDescriptorJSON \<Rightarrow> reaction list" where
  "descriptor_reactions td_json = (case td_reactions td_json of None \<Rightarrow> [] | Some rs \<Rightarrow> rs)"

text \<open>The body of the loop over the descriptors, on the pair of dictionaries.\<close>

definition descriptor_step ::
  "(int \<times> FBThreatExchangeOpinion) list \<times> (int \<times> SignalOpinionCategory) list \<Rightarrow>
   ThreatDescriptorJSON \<Rightarrow>
   (int \<times> FBThreatExchangeOpinion) list \<times> (int \<times> SignalOpinionCategory) list" where
  "descriptor_step acc td_json =
     (dict_set (fst acc) (td_owner_id td_json) (descriptor_opinion td_json),
      foldl reaction_step (snd acc) (descriptor_reactions td_json))"

definition scan_descriptors ::
  "ThreatDescriptorJSON list \<Rightarrow>
   (int \<times> FBThreatExchangeOpinion) list \<times> (int \<times> SignalOpinionCategory) list" where
  "scan_descriptors tds = foldl descriptor_step ([], []) tds"

text \<open>Lines 121 to 129: an implicit opinion is added unless the owner has an entry.\<close>

definition reaction_opinion :: "int \<Rightarrow> SignalOpinionCategory \<Rightarrow> FBThreatExchangeOpinion" where
  "reaction_opinion owner_id cat =
     \<lparr>owner = owner_id, category = cat, tags = [],
      descriptor_id = Some REACTION_DESCRIPTOR_ID\<rparr>"

definition implicit_step ::
  "(int \<times> FBThreatExchangeOpinion) list \<Rightarrow> int \<times> SignalOpinionCategory \<Rightarrow>
   (int \<times> FBThreatExchangeOpinion) list" where
  "implicit_step explicit_opinions item =
     (if map_of explicit_opinions (fst item) \<noteq> None then explicit_opinions
      else dict_set explicit_opinions (fst item) (reaction_opinion (fst item) (snd item)))"

definition reconcile_opinions :: "ThreatDescriptorJSON list \<Rightarrow> FBThreatExchangeOpinion list" where
  "reconcile_opinions tds =
     (let acc = scan_descriptors tds in
      map snd (foldl implicit_step (fst acc) (snd acc)))"

definition from_threatexchange_json ::
  "ThreatUpdateJSON \<Rightarrow> FBThreatExchangeIndicatorRecord option" where
  "from_threatexchange_json te_json =
     (if should_delete te_json then None
      else
        let explicit_opinions = reconcile_opinions (descriptors te_json) in
        if explicit_opinions = [] then None
        else Some \<lparr>opinions = explicit_opinions\<rparr>)"

subsection \<open>Opinion reconciliation in the spec's words\<close>

text \<open>
  The reconciliation of section 4.6 of the spec, read per owner and not as a loop: the
  explicit opinion of an owner is the one built from the last of the update's
  descriptors that the owner owns; the implicit opinion of an owner comes from the
  owner's reactions on any descriptor of the update, TRUE\_POSITIVE if one of them is
  HELPFUL, else FALSE\_POSITIVE if one of them is DISAGREE\_WITH\_TAGS; an explicit
  opinion overrides an implicit one, and an implicit opinion stands only for an owner
  with no explicit opinion. These three definitions are what the code is compared with.
\<close>

definition spec_explicit_opinion ::
  "ThreatDescriptorJSON list \<Rightarrow> int \<Rightarrow> FBThreatExchangeOpinion option" where
  "spec_explicit_opinion tds ownr =
     map_option descriptor_opinion (find (\<lambda>td. td_owner_id td = ownr) (rev tds))"

definition spec_implicit_category ::
  "ThreatDescriptorJSON list \<Rightarrow> int \<Rightarrow> SignalOpinionCategory option" where
  "spec_implicit_category tds ownr =
     (let rs = filter (\<lambda>r. rxn_value r = ownr) (concat (map descriptor_reactions tds)) in
      if list_ex (\<lambda>r. rxn_key r = ''HELPFUL'') rs then Some TRUE_POSITIVE
      else if list_ex (\<lambda>r. rxn_key r = ''DISAGREE_WITH_TAGS'') rs then Some FALSE_POSITIVE
      else None)"

definition spec_reconciled_opinion ::
  "ThreatDescriptorJSON list \<Rightarrow> int \<Rightarrow> FBThreatExchangeOpinion option" where
  "spec_reconciled_opinion tds ownr =
     (case spec_explicit_opinion tds ownr of
        Some opinion \<Rightarrow> Some opinion
      | None \<Rightarrow> map_option (reaction_opinion ownr) (spec_implicit_category tds ownr))"

subsection \<open>The Graph API client and its paging cursor\<close>

text \<open>
  Modelled from the spec: the classes \<^verbatim>\<open>ThreatExchangeAPI\<close> and \<^verbatim>\<open>_CursoredResponse\<close>
  of \<^verbatim>\<open>threatexchange.fb_threatexchange.api\<close> are not among the sources. The spec's
  words are a paging cursor over the source's updates, one batch per page, whose pass is
  done when it has reached the source's current head. The client is modelled by its
  \<open>app_id\<close> and by the pages the endpoint serves for a privacy group and a start
  time (\<open>None\<close>: from the earliest retained data). A cursor is the list of pages it
  has not returned yet: \<open>cursor_next\<close> is \<^verbatim>\<open>cursor.next()\<close>, returning the first of
  them and advancing the cursor (raising when none is left), \<open>cursor_done\<close> is
  \<^verbatim>\<open>cursor.done\<close>. The constant arguments \<^verbatim>\<open>page_size\<close>, \<^verbatim>\<open>fields\<close> and
  \<^verbatim>\<open>decode_fn\<close> of \<^verbatim>\<open>get_threat_updates\<close> are left out.
\<close>

record ThreatExchangeAPI =
  app_id :: int
  threat_updates :: "int \<Rightarrow> int option \<Rightarrow> ThreatUpdateJSON list list"

record CursoredResponse =
  pages :: "ThreatUpdateJSON list list"

definition get_threat_updates ::
  "ThreatExchangeAPI \<Rightarrow> int \<Rightarrow> int option \<Rightarrow> CursoredResponse" where
  "get_threat_updates a privacy_grp start_time =
     \<lparr>pages = threat_updates a privacy_grp start_time\<rparr>"

definition cursor_next ::
  "CursoredResponse \<Rightarrow> error + ThreatUpdateJSON list \<times> CursoredResponse" where
  "cursor_next c =
     (case pages c of
        [] \<Rightarrow> Inl StopIteration
      | p # ps \<Rightarrow> Inr (p, c\<lparr>pages := ps\<rparr>))"

definition cursor_done :: "CursoredResponse \<Rightarrow> bool" where
  "cursor_done c \<longleftrightarrow> pages c = []"

subsection \<open>FBThreatExchangeSignalExchangeAPI\<close>

text \<open>
  The object's state: the attribute \<^verbatim>\<open>_api\<close> (\<open>priv_api\<close>) and the dictionary
  \<^verbatim>\<open>cursors\<close>, keyed by collaboration name. The constructor of the client is a
  parameter of \<open>init_api\<close>, which is \<^verbatim>\<open>__init__\<close>.
\<close>

record FBThreatExchangeSignalExchangeAPI =
  priv_api :: "ThreatExchangeAPI option"
  cursors :: "string \<rightharpoonup> CursoredResponse"

definition init_api ::
  "(string \<Rightarrow> ThreatExchangeAPI) \<Rightarrow> string option \<Rightarrow> FBThreatExchangeSignalExchangeAPI" where
  "init_api new_client fb_app_token =
     \<lparr>priv_api = (case fb_app_token of None \<Rightarrow> None | Some tok \<Rightarrow> Some (new_client tok)),
      cursors = Map.empty\<rparr>"

definition api_property :: "FBThreatExchangeSignalExchangeAPI \<Rightarrow> error + ThreatExchangeAPI" where
  "api_property self =
     (case priv_api self of
        None \<Rightarrow> Inl (PyException ''App Developer token not configured.'')
      | Some a \<Rightarrow> Inr a)"

definition get_own_owner_id ::
  "FBThreatExchangeSignalExchangeAPI \<Rightarrow> FBThreatExchangeCollabConfig \<Rightarrow> error + int" where
  "get_own_owner_id self collab =
     (case api_property self of Inl e \<Rightarrow> Inl e | Inr a \<Rightarrow> Inr (app_id a))"

text \<open>
  \<^verbatim>\<open>SimpleFetchDelta\<close> (not among the sources) as \<^verbatim>\<open>fetch_once\<close> constructs it: the
  dictionary of updates, the checkpoint and the flag \<^verbatim>\<open>done\<close>.
\<close>

record SimpleFetchDelta =
  updates :: "((string \<times> string) \<times> FBThreatExchangeIndicatorRecord option) list"
  checkpoint :: FBThreatExchangeCheckpoint
  delta_done :: bool

text \<open>
  \<^verbatim>\<open>int(time.time())\<close>, the default of \<^verbatim>\<open>last_fetch_time\<close>: Python's \<^verbatim>\<open>int\<close>
  truncates towards zero.
\<close>

definition py_int :: "real \<Rightarrow> int" where
  "py_int x = (if 0 \<le> x then \<lfloor>x\<rfloor> else \<lceil>x\<rceil>)"

text \<open>Lines 210 to 215: the running maximum of the batch, starting from 0.\<close>

definition highest_time :: "ThreatUpdateJSON list \<Rightarrow> int" where
  "highest_time batch = foldl (\<lambda>h u. max (time u) h) 0 batch"

text \<open>
  Lines 209 to 230, on a cursor that is already stored under the collaboration's name.
  \<^verbatim>\<open>cursor.next()\<close> mutates the stored object, so the dictionary holds the advanced
  cursor afterwards.
\<close>

definition read_batch ::
  "real \<Rightarrow> FBThreatExchangeSignalExchangeAPI \<Rightarrow> FBThreatExchangeCollabConfig \<Rightarrow>
   CursoredResponse \<Rightarrow> (error + SimpleFetchDelta) \<times> FBThreatExchangeSignalExchangeAPI" where
  "read_batch now self collab cursor =
     (case cursor_next cursor of
        Inl e \<Rightarrow> (Inl e, self)
      | Inr (batch, cursor') \<Rightarrow>
          (Inr \<lparr>updates =
                  foldl (\<lambda>d u. dict_set d (threat_type u, indicator u) (from_threatexchange_json u))
                    [] batch,
                checkpoint = \<lparr>update_time = highest_time batch, last_fetch_time = py_int now\<rparr>,
                delta_done = cursor_done cursor'\<rparr>,
           self\<lparr>cursors := (cursors self)(name collab \<mapsto> cursor')\<rparr>))"

text \<open>
  Lines 197 to 207 of \<^verbatim>\<open>fetch_once\<close>: the cursor the call reads from, and the
  object's state once the cursor is stored. A cursor object is truthy, so the test
  \<^verbatim>\<open>if not cursor\<close> is the test for a missing entry; the \<^verbatim>\<open>api\<close> property is read
  only then.
\<close>

definition cursor_for ::
  "FBThreatExchangeSignalExchangeAPI \<Rightarrow> FBThreatExchangeCollabConfig \<Rightarrow>
   FBThreatExchangeCheckpoint option \<Rightarrow>
   error + CursoredResponse \<times> FBThreatExchangeSignalExchangeAPI" where
  "cursor_for self collab ckpt =
     (let start_time = (case ckpt of None \<Rightarrow> None | Some c \<Rightarrow> Some (update_time c)) in
      case cursors self (name collab) of
        Some cursor \<Rightarrow> Inr (cursor, self)
      | None \<Rightarrow>
          (case api_property self of
             Inl e \<Rightarrow> Inl e
           | Inr a \<Rightarrow>
               let cursor = get_threat_updates a (privacy_group collab) start_time in
               Inr (cursor, self\<lparr>cursors := (cursors self)(name collab \<mapsto> cursor)\<rparr>)))"

text \<open>
  \<^verbatim>\<open>fetch_once\<close>. \<open>now\<close> is the value of \<^verbatim>\<open>time.time()\<close> during the call.
\<close>

definition fetch_once ::
  "real \<Rightarrow> FBThreatExchangeSignalExchangeAPI \<Rightarrow> string list \<Rightarrow> FBThreatExchangeCollabConfig \<Rightarrow>
   FBThreatExchangeCheckpoint option \<Rightarrow>
   (error + SimpleFetchDelta) \<times> FBThreatExchangeSignalExchangeAPI" where
  "fetch_once now self supported_signal_types collab ckpt =
     (case cursor_for self collab ckpt of
        Inl e \<Rightarrow> (Inl e, self)
      | Inr (cursor, self') \<Rightarrow> read_batch now self' collab cursor)"

text \<open>
  \<^verbatim>\<open>report_opinion\<close> of this class raises. \<^verbatim>\<open>report_true_positive\<close> and
  \<^verbatim>\<open>report_false_positive\<close> call \<^verbatim>\<open>self.report_opinion\<close>, which Python resolves on
  the object: the method they forward to is the first argument here, and the last two
  definitions bind it to this class's own.
\<close>

definition report_opinion ::
  "FBThreatExchangeSignalExchangeAPI \<Rightarrow> FBThreatExchangeCollabConfig \<Rightarrow> string \<Rightarrow> string \<Rightarrow>
   SignalOpinion \<Rightarrow> error + unit" where
  "report_opinion self collab s_type signal opinion = Inl NotImplementedError"

definition report_true_positive_via ::
  "(FBThreatExchangeSignalExchangeAPI \<Rightarrow> FBThreatExchangeCollabConfig \<Rightarrow> string \<Rightarrow> string \<Rightarrow>
      SignalOpinion \<Rightarrow> error + 'r) \<Rightarrow>
   FBThreatExchangeSignalExchangeAPI \<Rightarrow> FBThreatExchangeCollabConfig \<Rightarrow> string \<Rightarrow> string \<Rightarrow>
   'md \<Rightarrow> error + 'r" where
  "report_true_positive_via self_report_opinion self collab s_type signal metadata =
     (case get_own_owner_id self collab of
        Inl e \<Rightarrow> Inl e
      | Inr own_id \<Rightarrow>
          self_report_opinion self collab s_type signal
            \<lparr>owner = own_id, category = TRUE_POSITIVE, tags = []\<rparr>)"

definition report_false_positive_via ::
  "(FBThreatExchangeSignalExchangeAPI \<Rightarrow> FBThreatExchangeCollabConfig \<Rightarrow> string \<Rightarrow> string \<Rightarrow>
      SignalOpinion \<Rightarrow> error + 'r) \<Rightarrow>
   FBThreatExchangeSignalExchangeAPI \<Rightarrow> FBThreatExchangeCollabConfig \<Rightarrow> string \<Rightarrow> string \<Rightarrow>
   'md \<Rightarrow> error + 'r" where
  "report_false_positive_via self_report_opinion self collab s_type signal metadata =
     (case get_own_owner_id self collab of
        Inl e \<Rightarrow> Inl e
      | Inr own_id \<Rightarrow>
          self_report_opinion self collab s_type signal
            \<lparr>owner = own_id, category = FALSE_POSITIVE, tags = []\<rparr>)"

definition report_true_positive ::
  "FBThreatExchangeSignalExchangeAPI \<Rightarrow> FBThreatExchangeCollabConfig \<Rightarrow> string \<Rightarrow> string \<Rightarrow>
   'md \<Rightarrow> error + unit" where
  "report_true_positive = report_true_positive_via report_opinion"

definition report_false_positive ::
  "FBThreatExchangeSignalExchangeAPI \<Rightarrow> FBThreatExchangeCollabConfig \<Rightarrow> string \<Rightarrow> string \<Rightarrow>
   'md \<Rightarrow> error + unit" where
  "report_false_positive = report_false_positive_via report_opinion"

subsection \<open>Sequences of calls on one connector\<close>

text \<open>
  Consecutive \<^verbatim>\<open>fetch_once\<close> calls for one collaboration, each with its own clock
  reading and checkpoint argument; the connector's state is threaded through.
\<close>

fun fetch_calls ::
  "FBThreatExchangeSignalExchangeAPI \<Rightarrow> FBThreatExchangeCollabConfig \<Rightarrow>
   (real \<times> FBThreatExchangeCheckpoint option) list \<Rightarrow>
   (error + SimpleFetchDelta) list \<times> FBThreatExchangeSignalExchangeAPI" where
  "fetch_calls self collab [] = ([], self)"
| "fetch_calls self collab (c # cs) =
     (let r = fetch_once (fst c) self [] collab (snd c);
          rs = fetch_calls (snd r) collab cs
      in (fst r # fst rs, snd rs))"

text \<open>
  Any sequence of calls of the two methods that read the \<^verbatim>\<open>api\<close> property. A result
  is the exception raised, or the value returned.
\<close>

datatype api_call =
    FetchOnce real "string list" FBThreatExchangeCollabConfig "FBThreatExchangeCheckpoint option"
  | GetOwnOwnerId FBThreatExchangeCollabConfig

datatype api_value = Delta SimpleFetchDelta | OwnerId int

fun api_call_step ::
  "FBThreatExchangeSignalExchangeAPI \<Rightarrow> api_call \<Rightarrow>
   (error + api_value) \<times> FBThreatExchangeSignalExchangeAPI" where
  "api_call_step self (FetchOnce now sts collab ckpt) =
     (case fetch_once now self sts collab ckpt of
        (Inl e, self') \<Rightarrow> (Inl e, self')
      | (Inr d, self') \<Rightarrow> (Inr (Delta d), self'))"
| "api_call_step self (GetOwnOwnerId collab) =
     (case get_own_owner_id self collab of
        Inl e \<Rightarrow> (Inl e, self)
      | Inr i \<Rightarrow> (Inr (OwnerId i), self))"

fun api_calls ::
  "FBThreatExchangeSignalExchangeAPI \<Rightarrow> api_call list \<Rightarrow>
   (error + api_value) list \<times> FBThreatExchangeSignalExchangeAPI" where
  "api_calls self [] = ([], self)"
| "api_calls self (c # cs) =
     (let r = api_call_step self c; rs = api_calls (snd r) cs
      in (fst r # fst rs, snd rs))"

subsection \<open>Sample data\<close>

text \<open>
  One update with two descriptors. The first carries a HELPFUL and then a
  DISAGREE\_WITH\_TAGS reaction of owner 7, and a DISAGREE\_WITH\_TAGS reaction of
  owner 1, who also owns the descriptor; the second carries the two reactions of owner
  7 in the other order.
\<close>

definition helpful_then_disagree :: ThreatDescriptorJSON where
  "helpful_then_disagree =
     \<lparr>td_id = 11, td_owner_id = 1, td_status = ''MALICIOUS'', td_tags = TagsDict [''b'', ''a''],
      td_reactions = Some [\<lparr>rxn_key = ''HELPFUL'', rxn_value = 7\<rparr>,
                           \<lparr>rxn_key = ''DISAGREE_WITH_TAGS'', rxn_value = 7\<rparr>,
                           \<lparr>rxn_key = ''DISAGREE_WITH_TAGS'', rxn_value = 1\<rparr>]\<rparr>"

definition disagree_then_helpful :: ThreatDescriptorJSON where
  "disagree_then_helpful =
     \<lparr>td_id = 12, td_owner_id = 2, td_status = ''NON_MALICIOUS'', td_tags = TagsAbsent,
      td_reactions = Some [\<lparr>rxn_key = ''DISAGREE_WITH_TAGS'', rxn_value = 7\<rparr>,
                           \<lparr>rxn_key = ''HELPFUL'', rxn_value = 7\<rparr>]\<rparr>"

definition sample_update :: ThreatUpdateJSON where
  "sample_update =
     \<lparr>should_delete = False, descriptors = [helpful_then_disagree, disagree_then_helpful],
      threat_type = ''HASH_PDQ'', indicator = ''abc123'', time = 5\<rparr>"

text \<open>
  A collaboration, and two clients. \<open>sample_client\<close> serves the updates made at
  times 3, 5 and 9 that are not older than the start time, one per page;
  \<open>lagging_client\<close> serves a page with an update of time 5, then a page with one of
  time 3, then an empty last page.
\<close>

definition update_at :: "int \<Rightarrow> ThreatUpdateJSON" where
  "update_at t = sample_update\<lparr>indicator := ''abc'' @ replicate (nat t) CHR ''x'', time := t\<rparr>"

definition sample_collab :: FBThreatExchangeCollabConfig where
  "sample_collab =
     \<lparr>name = ''Sample'', api = ''fb_threatexchange'', enabled = True,
      only_signal_types = {}, not_signal_types = {}, only_owners = {}, not_owners = {},
      only_tags = {}, not_tags = {}, privacy_group = 1234, app_token_override = None\<rparr>"

definition sample_client :: ThreatExchangeAPI where
  "sample_client =
     \<lparr>app_id = 42,
      threat_updates = (\<lambda>privacy_grp start_time.
        map (\<lambda>u. [u])
          (filter (\<lambda>u. case start_time of None \<Rightarrow> True | Some t \<Rightarrow> t \<le> time u)
             [update_at 3, update_at 5, update_at 9]))\<rparr>"

definition lagging_client :: ThreatExchangeAPI where
  "lagging_client =
     \<lparr>app_id = 42,
      threat_updates = (\<lambda>privacy_grp start_time. [[update_at 5], [update_at 3], []])\<rparr>"

text \<open>
  Connectors built on the two clients, the checkpoint arguments of three consecutive
  calls, and the part of a call's result that the claims about progress read: the
  progress timestamp of the delta's checkpoint and the flag \<^verbatim>\<open>done\<close>.
\<close>

definition progress_of :: "error + SimpleFetchDelta \<Rightarrow> (int \<times> bool) option" where
  "progress_of r =
     (case r of Inl e \<Rightarrow> None
      | Inr d \<Rightarrow> Some (get_progress_timestamp (checkpoint d), delta_done d))"

definition sample_connector :: FBThreatExchangeSignalExchangeAPI where
  "sample_connector = init_api (\<lambda>tok. sample_client) (Some ''42|secret'')"

definition lagging_connector :: FBThreatExchangeSignalExchangeAPI where
  "lagging_connector = init_api (\<lambda>tok. lagging_client) (Some ''42|secret'')"

definition sample_calls :: "(real \<times> FBThreatExchangeCheckpoint option) list" where
  "sample_calls =
     [(1000, None),
      (1001, Some \<lparr>update_time = 3, last_fetch_time = 1000\<rparr>),
      (1002, Some \<lparr>update_time = 5, last_fetch_time = 1001\<rparr>)]"

definition lagging_calls :: "(real \<times> FBThreatExchangeCheckpoint option) list" where
  "lagging_calls =
     [(1000, None),
      (1001, Some \<lparr>update_time = 5, last_fetch_time = 1000\<rparr>),
      (1002, Some \<lparr>update_time = 3, last_fetch_time = 1001\<rparr>)]"

section \<open>cli/cli\_config.py\<close>

text \<open>
  What \<^verbatim>\<open>json.load\<close> returns: \<^verbatim>\<open>get_all_collabs\<close> tests it with
  \<^verbatim>\<open>isinstance(content, dict)\<close> and reads \<^verbatim>\<open>content.get("api")\<close>.
\<close>

datatype json =
    JNull
  | JBool bool
  | JNumber int
  | JString string
  | JArray "json list"
  | JObject "(string \<times> json) list"

text \<open>
  The directory \<^verbatim>\<open>collab_dir\<close>: its entries by file name, in the order \<^verbatim>\<open>glob\<close>
  lists them, each a directory or a regular file with its text. A path is modelled by
  the file name inside \<^verbatim>\<open>collab_dir\<close>.
\<close>

datatype dir_entry = Directory | RegularFile string

type_synonym directory = "(string \<times> dir_entry) list"

text \<open>
  The library calls whose code is not among the sources are parameters: \<^verbatim>\<open>json.load\<close>
  on a file's text, \<^verbatim>\<open>cli_json.dataclass_load_dict\<close>, and the text that
  \<^verbatim>\<open>cli_json.dataclass_dump_file\<close> writes. Each returns its value or the exception it
  raises. \<open>'t\<close> is the type of the config classes, \<open>'m\<close> the extension of a
  config beyond \<^verbatim>\<open>CollaborationConfigBase\<close>.
\<close>

record ('t, 'm) cli_json =
  json_load :: "string \<Rightarrow> error + json"
  dataclass_load_dict :: "json \<Rightarrow> 't \<Rightarrow> error + 'm CollaborationConfigBase_scheme"
  dataclass_dump :: "'m CollaborationConfigBase_scheme \<Rightarrow> string"

text \<open>
  The attributes of \<^verbatim>\<open>CliState\<close> that the modelled methods read or write:
  \<^verbatim>\<open>_name_to_ctype\<close> and \<^verbatim>\<open>_cache\<close>.
\<close>

record ('t, 'm) CliState =
  name_to_ctype :: "string \<rightharpoonup> 't"
  cache :: "(string \<times> 'm CollaborationConfigBase_scheme) list option"

definition glob_json :: "directory \<Rightarrow> directory" where
  "glob_json dir = filter (\<lambda>pe. suffix ''.json'' (fst pe)) dir"

definition path_for_collab_config :: "'m CollaborationConfigBase_scheme \<Rightarrow> string" where
  "path_for_collab_config config = name config @ ''.json''"

text \<open>
  Lines 131 to 133: \<^verbatim>\<open>self._name_to_ctype.get(content.get("api"))\<close> for a dict, else
  \<^verbatim>\<open>None\<close>. A list or dict as the key is unhashable and raises; any other value that
  is not a string is not a key of the dictionary.
\<close>

definition ctype_of :: "(string \<rightharpoonup> 't) \<Rightarrow> json \<Rightarrow> error + 't option" where
  "ctype_of n2c content =
     (case content of
        JObject kvs \<Rightarrow>
          (case map_of kvs ''api'' of
             None \<Rightarrow> Inr None
           | Some (JString a) \<Rightarrow> Inr (n2c a)
           | Some (JArray xs) \<Rightarrow> Inl TypeError
           | Some (JObject kvs') \<Rightarrow> Inl TypeError
           | Some _ \<Rightarrow> Inr None)
      | _ \<Rightarrow> Inr None)"

text \<open>
  The body of the loop of \<^verbatim>\<open>get_all_collabs\<close> for one file: \<open>Inr None\<close> where the
  source continues with the next file, \<open>Inr (Some config)\<close> where it appends a config,
  \<open>Inl e\<close> where an exception leaves the method.
\<close>

definition load_collab_file ::
  "('t, 'm) cli_json \<Rightarrow> (string \<rightharpoonup> 't) \<Rightarrow> dir_entry \<Rightarrow>
   error + 'm CollaborationConfigBase_scheme option" where
  "load_collab_file lib n2c f =
     (case f of
        Directory \<Rightarrow> Inr None
      | RegularFile txt \<Rightarrow>
          (case json_load lib txt of
             Inl e \<Rightarrow> if e = JSONDecodeError then Inr None else Inl e
           | Inr content \<Rightarrow>
               (case ctype_of n2c content of
                  Inl e \<Rightarrow> Inl e
                | Inr None \<Rightarrow> Inr None
                | Inr (Some ctype) \<Rightarrow>
                    (case dataclass_load_dict lib content ctype of
                       Inl e \<Rightarrow> if e = WrongTypeError then Inr None else Inl e
                     | Inr config \<Rightarrow> Inr (Some config)))))"

fun load_collabs ::
  "('t, 'm) cli_json \<Rightarrow> (string \<rightharpoonup> 't) \<Rightarrow> directory \<Rightarrow>
   error + 'm CollaborationConfigBase_scheme list" where
  "load_collabs lib n2c [] = Inr []"
| "load_collabs lib n2c (pe # rest) =
     (case load_collab_file lib n2c (snd pe) of
        Inl e \<Rightarrow> Inl e
      | Inr r \<Rightarrow>
          (case load_collabs lib n2c rest of
             Inl e \<Rightarrow> Inl e
           | Inr ret \<Rightarrow> Inr (case r of None \<Rightarrow> ret | Some config \<Rightarrow> config # ret)))"

definition get_all_collabs ::
  "('t, 'm) cli_json \<Rightarrow> ('t, 'm) CliState \<Rightarrow> directory \<Rightarrow>
   (error + 'm CollaborationConfigBase_scheme list) \<times> ('t, 'm) CliState" where
  "get_all_collabs lib self dir =
     (case cache self of
        Some c \<Rightarrow> (Inr (map snd c), self)
      | None \<Rightarrow>
          (case load_collabs lib (name_to_ctype self) (glob_json dir) of
             Inl e \<Rightarrow> (Inl e, self)
           | Inr ret \<Rightarrow>
               let c = foldl (\<lambda>d config. dict_set d (name config) config) [] ret
               in (Inr (map snd c), self\<lparr>cache := Some c\<rparr>)))"

text \<open>
  \<^verbatim>\<open>CollaborationConfigStoreBase.get_collab\<close> (fetcher/collab\_config.py), which
  \<^verbatim>\<open>CliState\<close> inherits.
\<close>

definition get_collab ::
  "('t, 'm) cli_json \<Rightarrow> ('t, 'm) CliState \<Rightarrow> directory \<Rightarrow> string \<Rightarrow>
   (error + 'm CollaborationConfigBase_scheme option) \<times> ('t, 'm) CliState" where
  "get_collab lib self dir nm =
     (case get_all_collabs lib self dir of
        (Inl e, self') \<Rightarrow> (Inl e, self')
      | (Inr cs, self') \<Rightarrow> (Inr (find (\<lambda>c. name c = nm) cs), self'))"

definition get_collab_names_without_loading ::
  "('t, 'm) CliState \<Rightarrow> directory \<Rightarrow> string list" where
  "get_collab_names_without_loading self dir =
     (case cache self of
        Some c \<Rightarrow> map fst c
      | None \<Rightarrow> map fst (glob_json dir))"

text \<open>
  \<^verbatim>\<open>update_collab\<close> and \<^verbatim>\<open>delete_collab\<close> write and unlink the file of a
  collaboration; neither assigns an attribute of the object. Both fail on a path that is
  a directory.
\<close>

definition update_collab ::
  "('t, 'm) cli_json \<Rightarrow> ('t, 'm) CliState \<Rightarrow> directory \<Rightarrow> 'm CollaborationConfigBase_scheme \<Rightarrow>
   (error + unit) \<times> ('t, 'm) CliState \<times> directory" where
  "update_collab lib self dir collab =
     (let path = path_for_collab_config collab in
      case map_of dir path of
        Some Directory \<Rightarrow> (Inl OSError, self, dir)
      | _ \<Rightarrow> (Inr (), self, dict_set dir path (RegularFile (dataclass_dump lib collab))))"

definition delete_collab ::
  "('t, 'm) CliState \<Rightarrow> directory \<Rightarrow> 'm CollaborationConfigBase_scheme \<Rightarrow>
   (error + unit) \<times> ('t, 'm) CliState \<times> directory" where
  "delete_collab self dir collab =
     (let path = path_for_collab_config collab in
      case map_of dir path of
        Some Directory \<Rightarrow> (Inl OSError, self, dir)
      | _ \<Rightarrow> (Inr (), self, filter (\<lambda>pe. fst pe \<noteq> path) dir))"

text \<open>
  What can happen to a \<^verbatim>\<open>CliState\<close> and the directory during the object's lifetime:
  calls of its methods, and any change of the directory made from outside
  (\<open>DiskChange\<close>).
\<close>

datatype 'm cli_op =
    UpdateCollab "'m CollaborationConfigBase_scheme"
  | DeleteCollab "'m CollaborationConfigBase_scheme"
  | DiskChange directory
  | GetAllCollabs
  | GetCollab string

fun cli_step ::
  "('t, 'm) cli_json \<Rightarrow> ('t, 'm) CliState \<times> directory \<Rightarrow> 'm cli_op \<Rightarrow>
   ('t, 'm) CliState \<times> directory" where
  "cli_step lib w (UpdateCollab c) = snd (update_collab lib (fst w) (snd w) c)"
| "cli_step lib w (DeleteCollab c) = snd (delete_collab (fst w) (snd w) c)"
| "cli_step lib w (DiskChange dir') = (fst w, dir')"
| "cli_step lib w GetAllCollabs = (snd (get_all_collabs lib (fst w) (snd w)), snd w)"
| "cli_step lib w (GetCollab nm) = (snd (get_collab lib (fst w) (snd w) nm), snd w)"

definition cli_run ::
  "('t, 'm) cli_json \<Rightarrow> ('t, 'm) CliState \<times> directory \<Rightarrow> 'm cli_op list \<Rightarrow>
   ('t, 'm) CliState \<times> directory" where
  "cli_run lib w ops = foldl (cli_step lib) w ops"

text \<open>
  A directory with one loadable config file, a file that is not JSON, a file that the
  glob does not match and a directory that it matches; a loader that reads a config's
  name from the file.
\<close>

definition sample_base :: CollaborationConfigBase where
  "sample_base =
     \<lparr>name = ''Sample'', api = ''fb_threatexchange'', enabled = True,
      only_signal_types = {}, not_signal_types = {}, only_owners = {}, not_owners = {},
      only_tags = {}, not_tags = {}\<rparr>"

definition sample_lib :: "(unit, unit) cli_json" where
  "sample_lib =
     \<lparr>json_load = (\<lambda>txt.
        if txt = ''{'' then Inl JSONDecodeError
        else Inr (JObject [(''api'', JString ''fb_threatexchange''), (''name'', JString txt)])),
      dataclass_load_dict = (\<lambda>content ctype.
        case content of
          JObject kvs \<Rightarrow>
            (case map_of kvs ''name'' of
               Some (JString n) \<Rightarrow> Inr (sample_base\<lparr>name := n\<rparr>)
             | _ \<Rightarrow> Inl WrongTypeError)
        | _ \<Rightarrow> Inl WrongTypeError),
      dataclass_dump = name\<rparr>"

definition sample_state :: "(unit, unit) CliState" where
  "sample_state = \<lparr>name_to_ctype = [''fb_threatexchange'' \<mapsto> ()], cache = None\<rparr>"

definition sample_dir :: directory where
  "sample_dir =
     [(''Sample.json'', RegularFile ''Sample''),
      (''broken.json'', RegularFile ''{''),
      (''notes.txt'', RegularFile ''Notes''),
      (''old.json'', Directory)]"

definition sample_ops :: "unit cli_op list" where
  "sample_ops = [UpdateCollab (sample_base\<lparr>name := ''Other''\<rparr>), DeleteCollab sample_base]"

section \<open>Properties\<close>

text \<open>
  C4. \<open>is_stale\<close> holds exactly when more than 85 days, that is 85 * 24 * 3600
  seconds, lie between \<open>last_fetch_time\<close> and the current time, and
  \<open>get_progress_timestamp\<close> is the checkpoint's \<open>update_time\<close>.
\<close>

theorem C4_is_stale_85_days:
  "(is_stale now c \<longleftrightarrow> now - real_of_int (last_fetch_time c) > 85 * 24 * 3600)
   \<and> get_progress_timestamp c = update_time c"
  by (simp add: is_stale_def get_progress_timestamp_def)


subsection \<open>Insertion-ordered dictionaries\<close>

lemma map_of_dict_set: "map_of (dict_set d k v) = (map_of d)(k \<mapsto> v)"
  by (induction d k v rule: dict_set.induct) (auto simp: fun_eq_iff)

lemma keys_dict_set: "fst ` set (dict_set d k v) = insert k (fst ` set d)"
  by (induction d k v rule: dict_set.induct) auto

lemma distinct_dict_set: "distinct (map fst d) \<Longrightarrow> distinct (map fst (dict_set d k v))"
  by (induction d k v rule: dict_set.induct) (auto simp: keys_dict_set)

lemma dict_set_not_Nil: "dict_set d k v \<noteq> []"
  by (cases d) (auto split: if_splits)

lemma set_dict_set_subset: "set (dict_set d k v) \<subseteq> insert (k, v) (set d)"
  by (induction d k v rule: dict_set.induct) auto

lemma dict_set_mem: "(k, v) \<in> set (dict_set d k v)"
  by (induction d k v rule: dict_set.induct) auto

lemma descriptor_category_WI: "descriptor_category td = WORTH_INVESTIGATING"
  by (simp add: descriptor_category_def)

lemma reaction_step_keeps_TP:
  "map_of impl o' = Some TRUE_POSITIVE \<Longrightarrow> map_of (reaction_step impl r) o' = Some TRUE_POSITIVE"
  by (auto simp: reaction_step_def Let_def map_of_dict_set)

lemma reaction_step_helpful:
  "rxn_key r = ''HELPFUL'' \<Longrightarrow> map_of (reaction_step impl r) (rxn_value r) = Some TRUE_POSITIVE"
  by (simp add: reaction_step_def Let_def map_of_dict_set)

lemma foldl_reaction_keeps_TP:
  "map_of impl o' = Some TRUE_POSITIVE \<Longrightarrow> map_of (foldl reaction_step impl rs) o' = Some TRUE_POSITIVE"
  by (induction rs arbitrary: impl) (auto simp: reaction_step_keeps_TP)

lemma foldl_reaction_helpful:
  assumes "r \<in> set rs" "rxn_key r = ''HELPFUL''"
  shows "map_of (foldl reaction_step impl rs) (rxn_value r) = Some TRUE_POSITIVE"
proof -
  from assms(1) obtain ys zs where rs: "rs = ys @ r # zs"
    by (auto simp: in_set_conv_decomp)
  show ?thesis
    unfolding rs by (simp add: foldl_reaction_keeps_TP reaction_step_helpful assms(2))
qed

lemma snd_scan_descriptors:
  "snd (foldl descriptor_step acc tds) = foldl reaction_step (snd acc) (concat (map descriptor_reactions tds))"
  by (induction tds arbitrary: acc) (auto simp: descriptor_step_def)

lemma distinct_reaction_step: "distinct (map fst impl) \<Longrightarrow> distinct (map fst (reaction_step impl r))"
  by (auto simp: reaction_step_def Let_def distinct_dict_set)

lemma distinct_foldl_reaction: "distinct (map fst impl) \<Longrightarrow> distinct (map fst (foldl reaction_step impl rs))"
  by (induction rs arbitrary: impl) (auto simp: distinct_reaction_step)

subsection \<open>Invariants of the reconciliation\<close>

lemma scan_descriptors_snoc:
  "scan_descriptors (tds @ [td]) = descriptor_step (scan_descriptors tds) td"
  by (simp add: scan_descriptors_def)

lemma explicit_invariant:
  "distinct (map fst (fst (scan_descriptors tds)))
   \<and> fst ` set (fst (scan_descriptors tds)) = td_owner_id ` set tds
   \<and> (\<forall>kv \<in> set (fst (scan_descriptors tds)).
         fst kv = owner (snd kv) \<and> (\<exists>td \<in> set tds. snd kv = descriptor_opinion td))"
proof (induction tds rule: rev_induct)
  case Nil
  show ?case by (simp add: scan_descriptors_def)
next
  case (snoc td tds)
  let ?E = "fst (scan_descriptors tds)"
  have step: "fst (scan_descriptors (tds @ [td])) = dict_set ?E (td_owner_id td) (descriptor_opinion td)"
    by (simp add: scan_descriptors_snoc descriptor_step_def)
  from snoc.IH have ih1: "distinct (map fst ?E)"
    and ih2: "fst ` set ?E = td_owner_id ` set tds"
    and ih3: "\<forall>kv \<in> set ?E. fst kv = owner (snd kv) \<and> (\<exists>td \<in> set tds. snd kv = descriptor_opinion td)"
    by blast+
  have d: "distinct (map fst (dict_set ?E (td_owner_id td) (descriptor_opinion td)))"
    using ih1 by (simp add: distinct_dict_set)
  have k: "fst ` set (dict_set ?E (td_owner_id td) (descriptor_opinion td)) = td_owner_id ` set (tds @ [td])"
    by (simp add: keys_dict_set ih2)
  have v: "\<forall>kv \<in> set (dict_set ?E (td_owner_id td) (descriptor_opinion td)).
         fst kv = owner (snd kv) \<and> (\<exists>td' \<in> set (tds @ [td]). snd kv = descriptor_opinion td')"
  proof
    fix kv assume "kv \<in> set (dict_set ?E (td_owner_id td) (descriptor_opinion td))"
    then have "kv = (td_owner_id td, descriptor_opinion td) \<or> kv \<in> set ?E"
      using set_dict_set_subset by fastforce
    then show "fst kv = owner (snd kv) \<and> (\<exists>td' \<in> set (tds @ [td]). snd kv = descriptor_opinion td')"
    proof
      assume "kv = (td_owner_id td, descriptor_opinion td)"
      then show ?thesis by (simp add: descriptor_opinion_def)
    next
      assume "kv \<in> set ?E"
      with ih3 show ?thesis by auto
    qed
  qed
  show ?case unfolding step using d k v by blast
qed

lemma implicit_invariant: "distinct (map fst (snd (scan_descriptors tds)))"
  by (simp add: scan_descriptors_def snd_scan_descriptors distinct_foldl_reaction)

lemma distinct_implicit_step: "distinct (map fst E) \<Longrightarrow> distinct (map fst (implicit_step E item))"
  by (simp add: implicit_step_def distinct_dict_set)

lemma distinct_foldl_implicit: "distinct (map fst E) \<Longrightarrow> distinct (map fst (foldl implicit_step E I))"
  by (induction I arbitrary: E) (auto simp: distinct_implicit_step)

lemma keys_implicit_step: "fst ` set E \<subseteq> fst ` set (implicit_step E item)"
  by (auto simp: implicit_step_def keys_dict_set)

lemma mem_implicit_step:
  assumes "kv \<in> set (implicit_step E item)"
  shows "kv \<in> set E \<or> (fst item \<notin> fst ` set E \<and> kv = (fst item, reaction_opinion (fst item) (snd item)))"
proof (cases "map_of E (fst item) = None")
  case True
  then have "fst item \<notin> fst ` set E" by (simp add: map_of_eq_None_iff)
  moreover have "kv \<in> insert (fst item, reaction_opinion (fst item) (snd item)) (set E)"
    using assms True set_dict_set_subset by (fastforce simp: implicit_step_def)
  ultimately show ?thesis by auto
next
  case False
  then show ?thesis using assms by (simp add: implicit_step_def)
qed

lemma mem_foldl_implicit:
  "kv \<in> set (foldl implicit_step E I) \<Longrightarrow>
     kv \<in> set E \<or> (fst kv \<notin> fst ` set E \<and> (\<exists>c. (fst kv, c) \<in> set I \<and> snd kv = reaction_opinion (fst kv) c))"
proof (induction I arbitrary: E)
  case Nil
  then show ?case by simp
next
  case (Cons item I)
  from Cons.prems have "kv \<in> set (foldl implicit_step (implicit_step E item) I)" by simp
  from Cons.IH [OF this] consider
      (old) "kv \<in> set (implicit_step E item)"
    | (new) "fst kv \<notin> fst ` set (implicit_step E item)"
        "\<exists>c. (fst kv, c) \<in> set I \<and> snd kv = reaction_opinion (fst kv) c"
    by blast
  then show ?case
  proof cases
    case old
    from mem_implicit_step [OF old] show ?thesis
      by (cases item) force
  next
    case new
    then show ?thesis using keys_implicit_step [of E item] by auto
  qed
qed

lemma reconcile_owner_keys:
  assumes "kv \<in> set (foldl implicit_step (fst (scan_descriptors tds)) (snd (scan_descriptors tds)))"
  shows "fst kv = owner (snd kv)"
  using mem_foldl_implicit [OF assms] explicit_invariant [of tds]
  by (auto simp: reaction_opinion_def)

lemma reconcile_distinct_owners: "distinct (map owner (reconcile_opinions tds))"
proof -
  let ?F = "foldl implicit_step (fst (scan_descriptors tds)) (snd (scan_descriptors tds))"
  have eq: "map (owner \<circ> snd) ?F = map fst ?F"
    by (rule map_cong [OF refl]) (simp add: reconcile_owner_keys)
  have d: "distinct (map fst ?F)"
    using explicit_invariant [of tds] by (simp add: distinct_foldl_implicit)
  show ?thesis
    unfolding reconcile_opinions_def Let_def map_map eq by (rule d)
qed

lemma reconcile_explicit_owner:
  assumes "op \<in> set (reconcile_opinions tds)" "owner op \<in> td_owner_id ` set tds"
  shows "\<exists>td \<in> set tds. op = descriptor_opinion td"
proof -
  let ?E = "fst (scan_descriptors tds)" and ?I = "snd (scan_descriptors tds)"
  from assms(1) obtain k where kv: "(k, op) \<in> set (foldl implicit_step ?E ?I)"
    by (auto simp: reconcile_opinions_def Let_def)
  from reconcile_owner_keys [OF kv] have k: "k = owner op" by simp
  have "fst ` set ?E = td_owner_id ` set tds" using explicit_invariant [of tds] by blast
  with assms(2) k have "k \<in> fst ` set ?E" by simp
  with mem_foldl_implicit [OF kv] have "(k, op) \<in> set ?E" by auto
  then show ?thesis using explicit_invariant [of tds] by fastforce
qed

lemma reconcile_implicit_owner:
  assumes "op \<in> set (reconcile_opinions tds)" "owner op \<notin> td_owner_id ` set tds"
  shows "\<exists>c. map_of (snd (scan_descriptors tds)) (owner op) = Some c \<and> op = reaction_opinion (owner op) c"
proof -
  let ?E = "fst (scan_descriptors tds)" and ?I = "snd (scan_descriptors tds)"
  from assms(1) obtain k where kv: "(k, op) \<in> set (foldl implicit_step ?E ?I)"
    by (auto simp: reconcile_opinions_def Let_def)
  from reconcile_owner_keys [OF kv] have k: "k = owner op" by simp
  have keys: "fst ` set ?E = td_owner_id ` set tds" using explicit_invariant [of tds] by blast
  have "(k, op) \<notin> set ?E"
  proof
    assume "(k, op) \<in> set ?E"
    then have "k \<in> fst ` set ?E" by force
    with keys k assms(2) show False by simp
  qed
  with mem_foldl_implicit [OF kv] obtain c where c: "(k, c) \<in> set ?I" "op = reaction_opinion k c"
    by auto
  from c(1) implicit_invariant [of tds] have "map_of ?I k = Some c" by simp
  with c(2) k show ?thesis by simp
qed

lemma foldl_implicit_Nil: "foldl implicit_step E I = [] \<longleftrightarrow> E = []  \<and> I = []"
proof (induction I arbitrary: E)
  case Nil show ?case by simp
next
  case (Cons item I)
  have "implicit_step E item \<noteq> []"
    by (cases E) (auto simp: implicit_step_def dict_set_not_Nil)
  with Cons.IH show ?case by auto
qed

lemma foldl_reaction_Nil: "foldl reaction_step I rs = [] \<Longrightarrow> I = []"
proof (induction rs arbitrary: I)
  case Nil then show ?case by simp
next
  case (Cons r rs)
  from Cons.IH [of "reaction_step I r"] Cons.prems have "reaction_step I r = []" by simp
  then show ?case by (auto simp: reaction_step_def Let_def dict_set_not_Nil split: if_splits)
qed

lemma reconcile_Nil_iff: "reconcile_opinions tds = [] \<longleftrightarrow> tds = []"
proof (cases tds rule: rev_cases)
  case Nil
  then show ?thesis by (simp add: reconcile_opinions_def scan_descriptors_def)
next
  case (snoc tds' td)
  have "fst (scan_descriptors tds) \<noteq> []"
    unfolding snoc by (simp add: scan_descriptors_snoc descriptor_step_def dict_set_not_Nil)
  then show ?thesis using snoc by (simp add: reconcile_opinions_def Let_def foldl_implicit_Nil)
qed

subsection \<open>The reconciliation loop against the spec's words\<close>

lemma map_of_explicit:
  "map_of (fst (scan_descriptors tds)) ownr = spec_explicit_opinion tds ownr"
proof (induction tds rule: rev_induct)
  case Nil
  show ?case by (simp add: scan_descriptors_def spec_explicit_opinion_def)
next
  case (snoc td tds)
  have "map_of (fst (scan_descriptors (tds @ [td]))) ownr =
      ((map_of (fst (scan_descriptors tds)))(td_owner_id td \<mapsto> descriptor_opinion td)) ownr"
    by (simp add: scan_descriptors_snoc descriptor_step_def map_of_dict_set)
  also have "\<dots> = spec_explicit_opinion (tds @ [td]) ownr"
    using snoc.IH by (simp add: spec_explicit_opinion_def)
  finally show ?case .
qed

lemma map_of_reactions:
  "map_of (foldl reaction_step [] rs) ownr =
     (if list_ex (\<lambda>r. rxn_key r = ''HELPFUL'') (filter (\<lambda>r. rxn_value r = ownr) rs)
        then Some TRUE_POSITIVE
      else if list_ex (\<lambda>r. rxn_key r = ''DISAGREE_WITH_TAGS'') (filter (\<lambda>r. rxn_value r = ownr) rs)
        then Some FALSE_POSITIVE
      else None)"
proof (induction rs arbitrary: ownr rule: rev_induct)
  case Nil
  show ?case by simp
next
  case (snoc r rs)
  let ?I = "foldl reaction_step [] rs"
  note ih1 = snoc.IH [of ownr] and ih2 = snoc.IH [of "rxn_value r"]
  consider (helpful) "rxn_key r = ''HELPFUL''"
    | (disagree_new) "rxn_key r = ''DISAGREE_WITH_TAGS''" "map_of ?I (rxn_value r) = None"
    | (disagree_old) "rxn_key r = ''DISAGREE_WITH_TAGS''" "map_of ?I (rxn_value r) \<noteq> None"
    | (other) "rxn_key r \<noteq> ''HELPFUL''" "rxn_key r \<noteq> ''DISAGREE_WITH_TAGS''"
    by blast
  then show ?case
  proof cases
    case helpful
    then have "map_of (foldl reaction_step [] (rs @ [r])) ownr
        = ((map_of ?I)(rxn_value r \<mapsto> TRUE_POSITIVE)) ownr"
      by (simp add: reaction_step_def Let_def map_of_dict_set)
    then show ?thesis using helpful ih1 by (simp add: list_ex_iff)
  next
    case disagree_new
    then have "map_of (foldl reaction_step [] (rs @ [r])) ownr
        = ((map_of ?I)(rxn_value r \<mapsto> FALSE_POSITIVE)) ownr"
      by (simp add: reaction_step_def Let_def map_of_dict_set)
    moreover from disagree_new(2) ih2 have
      "\<not> list_ex (\<lambda>r. rxn_key r = ''HELPFUL'') (filter (\<lambda>x. rxn_value x = rxn_value r) rs)"
      by (auto split: if_splits)
    ultimately show ?thesis using disagree_new(1) ih1 by (auto simp: list_ex_iff)
  next
    case disagree_old
    then have same: "map_of (foldl reaction_step [] (rs @ [r])) ownr = map_of ?I ownr"
      by (auto simp: reaction_step_def Let_def)
    from disagree_old(2) ih2 have
      "list_ex (\<lambda>r. rxn_key r = ''HELPFUL'') (filter (\<lambda>x. rxn_value x = rxn_value r) rs)
       \<or> list_ex (\<lambda>r. rxn_key r = ''DISAGREE_WITH_TAGS'') (filter (\<lambda>x. rxn_value x = rxn_value r) rs)"
      by (auto split: if_splits)
    then show ?thesis unfolding same using disagree_old(1) ih1 by (auto simp: list_ex_iff)
  next
    case other
    then have "map_of (foldl reaction_step [] (rs @ [r])) ownr = map_of ?I ownr"
      by (simp add: reaction_step_def Let_def)
    then show ?thesis using other ih1 by (auto simp: list_ex_iff)
  qed
qed

lemma map_of_implicit:
  "map_of (snd (scan_descriptors tds)) ownr = spec_implicit_category tds ownr"
  by (simp add: scan_descriptors_def snd_scan_descriptors map_of_reactions
      spec_implicit_category_def Let_def)

lemma map_of_foldl_implicit:
  "map_of (foldl implicit_step E I) ownr =
     (case map_of E ownr of
        Some opinion \<Rightarrow> Some opinion
      | None \<Rightarrow> map_option (reaction_opinion ownr) (map_of I ownr))"
proof (induction I arbitrary: E)
  case Nil
  show ?case by (simp split: option.splits)
next
  case (Cons item I)
  show ?case
  proof (cases "map_of E (fst item) = None")
    case True
    then have "map_of (implicit_step E item) =
        (map_of E)(fst item \<mapsto> reaction_opinion (fst item) (snd item))"
      by (simp add: implicit_step_def map_of_dict_set)
    then show ?thesis using True
      by (cases item) (auto simp: Cons.IH split: option.splits)
  next
    case False
    then have "implicit_step E item = E" by (simp add: implicit_step_def)
    then show ?thesis using False
      by (cases item) (auto simp: Cons.IH split: option.splits)
  qed
qed

lemma reconcile_as_map:
  "map_of (map (\<lambda>opinion. (owner opinion, opinion)) (reconcile_opinions tds)) ownr
     = spec_reconciled_opinion tds ownr"
proof -
  let ?F = "foldl implicit_step (fst (scan_descriptors tds)) (snd (scan_descriptors tds))"
  have "map ((\<lambda>opinion. (owner opinion, opinion)) \<circ> snd) ?F = map (\<lambda>kv. kv) ?F"
    by (rule map_cong [OF refl]) (use reconcile_owner_keys [of _ tds] in force)
  then have "map (\<lambda>opinion. (owner opinion, opinion)) (reconcile_opinions tds) = ?F"
    by (simp add: reconcile_opinions_def Let_def)
  then show ?thesis
    by (simp add: map_of_foldl_implicit map_of_explicit map_of_implicit
        spec_reconciled_opinion_def split: option.splits)
qed

lemma spec_reconciled_none_iff:
  "(\<forall>ownr. spec_reconciled_opinion tds ownr = None) \<longleftrightarrow> tds = []"
proof
  assume all: "\<forall>ownr. spec_reconciled_opinion tds ownr = None"
  show "tds = []"
  proof (rule ccontr)
    assume "tds \<noteq> []"
    then obtain td where "td \<in> set tds" by (cases tds) auto
    then have "find (\<lambda>x. td_owner_id x = td_owner_id td) (rev tds) \<noteq> None"
      by (auto simp: find_None_iff)
    then have "spec_reconciled_opinion tds (td_owner_id td) \<noteq> None"
      by (auto simp: spec_reconciled_opinion_def spec_explicit_opinion_def split: option.splits)
    moreover from all have "spec_reconciled_opinion tds (td_owner_id td) = None" by (rule spec)
    ultimately show False by simp
  qed
next
  assume "tds = []"
  then show "\<forall>ownr. spec_reconciled_opinion tds ownr = None"
    by (simp add: spec_reconciled_opinion_def spec_explicit_opinion_def
        spec_implicit_category_def)
qed

subsection \<open>Claims about from\_threatexchange\_json\<close>

lemma sample_record:
  "from_threatexchange_json sample_update =
     Some \<lparr>opinions =
       [\<lparr>owner = 1, category = WORTH_INVESTIGATING, tags = [''a'', ''b''], descriptor_id = Some 11\<rparr>,
        \<lparr>owner = 2, category = WORTH_INVESTIGATING, tags = [], descriptor_id = Some 12\<rparr>,
        \<lparr>owner = 7, category = TRUE_POSITIVE, tags = [], descriptor_id = Some (- 1)\<rparr>]\<rparr>"
  by (simp add: from_threatexchange_json_def sample_update_def helpful_then_disagree_def
      disagree_then_helpful_def reconcile_opinions_def scan_descriptors_def descriptor_step_def
      descriptor_opinion_def descriptor_category_def descriptor_tags_def descriptor_reactions_def
      reaction_step_def implicit_step_def reaction_opinion_def REACTION_DESCRIPTOR_ID_def Let_def)

text \<open>
  C2. \<open>from_threatexchange_json\<close> returns \<open>None\<close> if and only if the update is
  marked \<open>should_delete\<close> or the reconciliation yields no opinion for any owner,
  which is the case exactly when the update has no descriptor. Otherwise it returns a
  record whose opinions are exactly the reconciled opinions: no two of them have the same
  owner, and for every owner the record holds the reconciled opinion of that owner, or
  none where the reconciliation gives the owner none.
\<close>

theorem C2_from_json_none_iff:
  "(from_threatexchange_json u = None \<longleftrightarrow>
      should_delete u \<or> (\<forall>ownr. spec_reconciled_opinion (descriptors u) ownr = None))
   \<and> (from_threatexchange_json u = None \<longleftrightarrow> should_delete u \<or> descriptors u = [])
   \<and> (\<forall>r. from_threatexchange_json u = Some r \<longrightarrow>
         distinct (map owner (opinions r))
         \<and> (\<forall>ownr. map_of (map (\<lambda>opinion. (owner opinion, opinion)) (opinions r)) ownr
               = spec_reconciled_opinion (descriptors u) ownr))"
proof -
  have none: "from_threatexchange_json u = None \<longleftrightarrow> should_delete u \<or> descriptors u = []"
    by (simp add: from_threatexchange_json_def Let_def reconcile_Nil_iff)
  have some: "opinions r = reconcile_opinions (descriptors u)"
    if "from_threatexchange_json u = Some r" for r
    using that by (auto simp: from_threatexchange_json_def Let_def split: if_splits)
  show ?thesis
    using none some
    by (auto simp: spec_reconciled_none_iff reconcile_distinct_owners reconcile_as_map)
qed

theorem C2_from_json_none_iff_witness:
  "from_threatexchange_json sample_update =
     Some \<lparr>opinions =
       [\<lparr>owner = 1, category = WORTH_INVESTIGATING, tags = [''a'', ''b''], descriptor_id = Some 11\<rparr>,
        \<lparr>owner = 2, category = WORTH_INVESTIGATING, tags = [], descriptor_id = Some 12\<rparr>,
        \<lparr>owner = 7, category = TRUE_POSITIVE, tags = [], descriptor_id = Some (- 1)\<rparr>]\<rparr>
   \<and> spec_reconciled_opinion (descriptors sample_update) 1 =
       Some \<lparr>owner = 1, category = WORTH_INVESTIGATING, tags = [''a'', ''b''], descriptor_id = Some 11\<rparr>
   \<and> spec_reconciled_opinion (descriptors sample_update) 7 =
       Some \<lparr>owner = 7, category = TRUE_POSITIVE, tags = [], descriptor_id = Some (- 1)\<rparr>
   \<and> spec_reconciled_opinion (descriptors sample_update) 3 = None
   \<and> from_threatexchange_json (sample_update\<lparr>descriptors := []\<rparr>) = None"
proof -
  let ?ops = "[\<lparr>owner = 1, category = WORTH_INVESTIGATING, tags = [''a'', ''b''], descriptor_id = Some 11\<rparr>,
        \<lparr>owner = 2, category = WORTH_INVESTIGATING, tags = [], descriptor_id = Some 12\<rparr>,
        \<lparr>owner = 7, category = TRUE_POSITIVE, tags = [], descriptor_id = Some (- 1)\<rparr>]"
  from C2_from_json_none_iff [of sample_update] sample_record
  have m: "\<And>ownr. map_of (map (\<lambda>opinion. (owner opinion, opinion)) ?ops) ownr
      = spec_reconciled_opinion (descriptors sample_update) ownr"
    by simp
  have e: "from_threatexchange_json (sample_update\<lparr>descriptors := []\<rparr>) = None"
    using C2_from_json_none_iff [of "sample_update\<lparr>descriptors := []\<rparr>"] by simp
  from m [of 1, symmetric] m [of 7, symmetric] m [of 3, symmetric] e sample_record
  show ?thesis by simp
qed

text \<open>
  C3. In the record made from one update, no two opinions have the same owner; the
  opinion of an owner of one of the update's descriptors is the opinion built from a
  descriptor, never a reaction-derived one; and every other opinion is the
  reaction-derived opinion of its owner, carrying the category the reactions gave that
  owner.
\<close>

theorem C3_one_opinion_per_owner:
  assumes "from_threatexchange_json u = Some r"
  shows "distinct (map owner (opinions r))
    \<and> (\<forall>op \<in> set (opinions r).
          if owner op \<in> td_owner_id ` set (descriptors u)
          then \<exists>td \<in> set (descriptors u). op = descriptor_opinion td
          else \<exists>c. map_of (snd (scan_descriptors (descriptors u))) (owner op) = Some c
                 \<and> op = reaction_opinion (owner op) c)"
proof -
  from assms have r: "opinions r = reconcile_opinions (descriptors u)"
    by (auto simp: from_threatexchange_json_def Let_def split: if_splits)
  show ?thesis
    unfolding r
    using reconcile_distinct_owners reconcile_explicit_owner reconcile_implicit_owner
    by auto
qed

theorem C3_one_opinion_per_owner_witness:
  "from_threatexchange_json sample_update =
     Some \<lparr>opinions =
       [\<lparr>owner = 1, category = WORTH_INVESTIGATING, tags = [''a'', ''b''], descriptor_id = Some 11\<rparr>,
        \<lparr>owner = 2, category = WORTH_INVESTIGATING, tags = [], descriptor_id = Some 12\<rparr>,
        \<lparr>owner = 7, category = TRUE_POSITIVE, tags = [], descriptor_id = Some (- 1)\<rparr>]\<rparr>
   \<and> distinct (map owner
       [\<lparr>owner = 1, category = WORTH_INVESTIGATING, tags = [''a'', ''b''], descriptor_id = Some 11\<rparr>,
        \<lparr>owner = 2, category = WORTH_INVESTIGATING, tags = [], descriptor_id = Some 12\<rparr>,
        \<lparr>owner = 7, category = TRUE_POSITIVE, tags = [], descriptor_id = Some (- 1)\<rparr>])"
  using C3_one_opinion_per_owner [OF sample_record] sample_record by simp

text \<open>
  C8. The opinion built from a descriptor has category WORTH\_INVESTIGATING whatever
  the descriptor's status is, also for the statuses MALICIOUS and NON\_MALICIOUS: the
  status is compared as a one-element tuple with a string. So has every explicit opinion
  that the loop over the descriptors of an update leaves in the dictionary.
\<close>

theorem C8_descriptor_category:
  "category (descriptor_opinion td) = WORTH_INVESTIGATING
   \<and> list_all (\<lambda>kv. category (snd kv) = WORTH_INVESTIGATING) (fst (scan_descriptors tds))"
proof -
  have "\<forall>kv \<in> set (fst (scan_descriptors tds)). category (snd kv) = WORTH_INVESTIGATING"
    using explicit_invariant [of tds]
    by (auto simp: descriptor_opinion_def descriptor_category_WI)
  then show ?thesis
    by (simp add: descriptor_opinion_def descriptor_category_WI list_all_iff)
qed

text \<open>
  C9. If an owner has a HELPFUL reaction and a DISAGREE\_WITH\_TAGS reaction among the
  reactions of an update's descriptors, in whatever order and on whichever descriptors,
  the implicit opinion the reactions give that owner is TRUE\_POSITIVE.
\<close>

theorem C9_helpful_wins:
  assumes "td1 \<in> set tds" "r1 \<in> set (descriptor_reactions td1)"
    and "rxn_key r1 = ''HELPFUL''" "rxn_value r1 = ownr"
    and "td2 \<in> set tds" "r2 \<in> set (descriptor_reactions td2)"
    and "rxn_key r2 = ''DISAGREE_WITH_TAGS''" "rxn_value r2 = ownr"
  shows "map_of (snd (scan_descriptors tds)) ownr = Some TRUE_POSITIVE"
proof -
  have "r1 \<in> set (concat (map descriptor_reactions tds))"
    using assms(1,2) by auto
  from foldl_reaction_helpful [OF this assms(3)] show ?thesis
    by (simp add: scan_descriptors_def snd_scan_descriptors assms(4))
qed

theorem C9_helpful_wins_witness:
  "map_of (snd (scan_descriptors [helpful_then_disagree])) 7 = Some TRUE_POSITIVE
   \<and> map_of (snd (scan_descriptors [disagree_then_helpful])) 7 = Some TRUE_POSITIVE"
proof -
  have a: "map_of (snd (scan_descriptors [helpful_then_disagree])) 7 = Some TRUE_POSITIVE"
    by (rule C9_helpful_wins [of helpful_then_disagree _ "\<lparr>rxn_key = ''HELPFUL'', rxn_value = 7\<rparr>"
          _ helpful_then_disagree "\<lparr>rxn_key = ''DISAGREE_WITH_TAGS'', rxn_value = 7\<rparr>"])
       (simp_all add: helpful_then_disagree_def descriptor_reactions_def)
  have b: "map_of (snd (scan_descriptors [disagree_then_helpful])) 7 = Some TRUE_POSITIVE"
    by (rule C9_helpful_wins [of disagree_then_helpful _ "\<lparr>rxn_key = ''HELPFUL'', rxn_value = 7\<rparr>"
          _ disagree_then_helpful "\<lparr>rxn_key = ''DISAGREE_WITH_TAGS'', rxn_value = 7\<rparr>"])
       (simp_all add: disagree_then_helpful_def descriptor_reactions_def)
  from a b show ?thesis by simp
qed

subsection \<open>Claims about the connector's methods\<close>

lemma unconfigured_step:
  assumes "priv_api self = None" "cursors self = Map.empty"
  shows "api_call_step self c = (Inl (PyException ''App Developer token not configured.''), self)"
  using assms
  by (cases c) (simp_all add: fetch_once_def cursor_for_def get_own_owner_id_def api_property_def Let_def)

lemma unconfigured_calls:
  assumes "priv_api self = None" "cursors self = Map.empty"
  shows "api_calls self cs =
    (replicate (length cs) (Inl (PyException ''App Developer token not configured.'')), self)"
  using assms
  by (induction cs) (simp_all add: unconfigured_step Let_def)

text \<open>
  C7. Constructing the connector without an app token succeeds: the client is absent
  and no cursor is stored. From that state every call of \<open>fetch_once\<close> or
  \<open>get_own_owner_id\<close>, in any sequence, raises the exception "App Developer token not
  configured." and leaves the state as it was: no cursor is created and none is read.
\<close>

theorem C7_unconfigured_fails_fast:
  "priv_api (init_api new_client None) = None
   \<and> cursors (init_api new_client None) = Map.empty
   \<and> api_calls (init_api new_client None) calls =
       (replicate (length calls) (Inl (PyException ''App Developer token not configured.'')),
        init_api new_client None)"
proof -
  have a: "priv_api (init_api new_client None) = None"
    and b: "cursors (init_api new_client None) = Map.empty"
    by (simp_all add: init_api_def)
  from unconfigured_calls [OF a b] a b show ?thesis by simp
qed

text \<open>
  C6. For every collaboration, signal type and signal, when \<open>get_own_owner_id\<close>
  returns an owner id, \<open>report_true_positive\<close> (respectively
  \<open>report_false_positive\<close>) returns what the object's \<open>report_opinion\<close> returns on
  the same collaboration, signal type and signal and the opinion whose owner is that id,
  whose category is TRUE\_POSITIVE (respectively FALSE\_POSITIVE) and whose tags are
  empty.
\<close>

theorem C6_report_forwards:
  assumes "get_own_owner_id self collab = Inr own_id"
  shows "report_true_positive_via self_report_opinion self collab s_type signal metadata =
           self_report_opinion self collab s_type signal
             \<lparr>owner = own_id, category = TRUE_POSITIVE, tags = []\<rparr>
    \<and> report_false_positive_via self_report_opinion self collab s_type signal metadata' =
           self_report_opinion self collab s_type signal
             \<lparr>owner = own_id, category = FALSE_POSITIVE, tags = []\<rparr>"
  using assms by (simp add: report_true_positive_via_def report_false_positive_via_def)

lemma sample_owner_id:
  "get_own_owner_id (init_api (\<lambda>tok. sample_client) (Some ''42|secret'')) sample_collab = Inr 42"
  by (simp add: get_own_owner_id_def api_property_def init_api_def sample_client_def)

theorem C6_report_forwards_witness:
  "get_own_owner_id (init_api (\<lambda>tok. sample_client) (Some ''42|secret'')) sample_collab = Inr 42
   \<and> report_true_positive_via (\<lambda>self collab s_type signal opinion. Inr (collab, s_type, signal, opinion))
        (init_api (\<lambda>tok. sample_client) (Some ''42|secret'')) sample_collab ''pdq'' ''abc123'' ()
      = Inr (sample_collab, ''pdq'', ''abc123'', \<lparr>owner = 42, category = TRUE_POSITIVE, tags = []\<rparr>)
   \<and> report_false_positive_via (\<lambda>self collab s_type signal opinion. Inr (collab, s_type, signal, opinion))
        (init_api (\<lambda>tok. sample_client) (Some ''42|secret'')) sample_collab ''pdq'' ''abc123'' ()
      = Inr (sample_collab, ''pdq'', ''abc123'', \<lparr>owner = 42, category = FALSE_POSITIVE, tags = []\<rparr>)"
  using C6_report_forwards [OF sample_owner_id,
      of "\<lambda>self collab s_type signal opinion. Inr (collab, s_type, signal, opinion)" "''pdq''" "''abc123''" "()" "()"]
    sample_owner_id
  by simp

lemma report_not_implemented:
  "get_own_owner_id self collab = Inr own_id \<Longrightarrow>
     report_true_positive self collab s_type signal metadata = Inl NotImplementedError
     \<and> report_false_positive self collab s_type signal metadata = Inl NotImplementedError"
  by (simp add: report_true_positive_def report_false_positive_def report_true_positive_via_def
      report_false_positive_via_def report_opinion_def)

subsection \<open>Claims about fetch\_once\<close>

lemma cursor_for_cached:
  "cursors self (name collab) = Some cur \<Longrightarrow> cursor_for self collab ckpt = Inr (cur, self)"
  by (simp add: cursor_for_def)

lemma cursor_for_fresh:
  "cursors self (name collab) = None \<Longrightarrow> priv_api self = Some a \<Longrightarrow>
   cursor_for self collab ckpt =
     Inr (get_threat_updates a (privacy_group collab) (map_option update_time ckpt),
          self\<lparr>cursors := (cursors self)(name collab \<mapsto>
            get_threat_updates a (privacy_group collab) (map_option update_time ckpt))\<rparr>)"
  by (cases ckpt) (simp_all add: cursor_for_def api_property_def Let_def)

lemma cursor_for_stores:
  "cursor_for self collab ckpt = Inr (cur, self') \<Longrightarrow> cursors self' (name collab) = Some cur"
  by (auto simp: cursor_for_def Let_def api_property_def split: option.splits sum.splits)

lemma read_batch_keeps_entry:
  "cursors self (name collab) \<noteq> None \<Longrightarrow>
   cursors (snd (read_batch now self collab cur)) (name collab) \<noteq> None"
  by (auto simp: read_batch_def split: sum.splits prod.splits)

lemma fetch_once_keeps_entry:
  "cursors self (name collab) \<noteq> None \<Longrightarrow>
   cursors (snd (fetch_once now self sts collab ckpt)) (name collab) \<noteq> None"
proof -
  assume entry: "cursors self (name collab) \<noteq> None"
  then obtain cur where "cursors self (name collab) = Some cur" by auto
  then have "fetch_once now self sts collab ckpt = read_batch now self collab cur"
    by (simp add: fetch_once_def cursor_for_cached)
  with read_batch_keeps_entry [OF entry] show ?thesis by simp
qed

lemma fetch_once_cached_any_checkpoint:
  "cursors self (name collab) \<noteq> None \<Longrightarrow>
   fetch_once now self sts collab ckpt = fetch_once now self sts' collab ckpt'"
  by (auto simp: fetch_once_def cursor_for_cached)

lemma fetch_calls_any_checkpoint:
  "cursors self (name collab) \<noteq> None \<Longrightarrow> map fst calls = map fst calls' \<Longrightarrow>
   fetch_calls self collab calls = fetch_calls self collab calls'"
proof (induction calls arbitrary: calls' self)
  case Nil
  then show ?case by simp
next
  case (Cons c cs)
  then obtain c' cs' where calls': "calls' = c' # cs'" and c: "fst c = fst c'"
    and cs: "map fst cs = map fst cs'"
    by (cases calls') auto
  have same: "fetch_once (fst c) self [] collab (snd c) = fetch_once (fst c') self [] collab (snd c')"
    unfolding c by (rule fetch_once_cached_any_checkpoint [OF Cons.prems(1)])
  have "cursors (snd (fetch_once (fst c') self [] collab (snd c'))) (name collab) \<noteq> None"
    by (rule fetch_once_keeps_entry [OF Cons.prems(1)])
  from Cons.IH [OF this cs] show ?case
    unfolding calls' by (simp add: same Let_def)
qed

lemma fetch_once_stores_cursor:
  assumes "priv_api self \<noteq> None"
  shows "cursors (snd (fetch_once now self sts collab ckpt)) (name collab) \<noteq> None"
proof (cases "cursors self (name collab)")
  case None
  from assms obtain a where a: "priv_api self = Some a" by auto
  show ?thesis
    by (simp add: fetch_once_def cursor_for_fresh [OF None a] read_batch_keeps_entry)
next
  case (Some cur)
  then show ?thesis by (simp add: fetch_once_keeps_entry)
qed

text \<open>
  C5. On a call for a collaboration whose name has no stored cursor, the call reads from
  a new cursor, stored under the name, that starts at the \<open>update_time\<close> of the
  checkpoint passed, and without a start time when no checkpoint is passed. After a call
  on a connector that has a client, a cursor is stored under the name. On a call for a
  name that has a stored cursor the call reads from that cursor and the cursor stays
  stored; and any sequence of further calls returns the same results and leaves the same
  state whatever checkpoints are passed.
\<close>

theorem C5_start_time_and_cursor_reuse:
  "(cursors self (name collab) = None \<longrightarrow> priv_api self = Some a \<longrightarrow>
      fetch_once now self sts collab None =
        read_batch now
          (self\<lparr>cursors := (cursors self)(name collab \<mapsto>
             get_threat_updates a (privacy_group collab) None)\<rparr>)
          collab (get_threat_updates a (privacy_group collab) None)
      \<and> fetch_once now self sts collab (Some ck) =
        read_batch now
          (self\<lparr>cursors := (cursors self)(name collab \<mapsto>
             get_threat_updates a (privacy_group collab) (Some (update_time ck)))\<rparr>)
          collab (get_threat_updates a (privacy_group collab) (Some (update_time ck))))
   \<and> (priv_api self \<noteq> None \<longrightarrow>
        cursors (snd (fetch_once now self sts collab ckpt)) (name collab) \<noteq> None)
   \<and> (cursors self (name collab) = Some cur \<longrightarrow>
        fetch_once now self sts collab ckpt = read_batch now self collab cur
        \<and> cursors (snd (fetch_once now self sts collab ckpt)) (name collab) \<noteq> None)
   \<and> (cursors self (name collab) \<noteq> None \<longrightarrow> map fst calls = map fst calls' \<longrightarrow>
        fetch_calls self collab calls = fetch_calls self collab calls')"
proof (intro conjI impI)
  assume n: "cursors self (name collab) = None" and a: "priv_api self = Some a"
  show "fetch_once now self sts collab None =
        read_batch now
          (self\<lparr>cursors := (cursors self)(name collab \<mapsto>
             get_threat_updates a (privacy_group collab) None)\<rparr>)
          collab (get_threat_updates a (privacy_group collab) None)"
    using cursor_for_fresh [OF n a, of None] by (simp add: fetch_once_def)
  show "fetch_once now self sts collab (Some ck) =
        read_batch now
          (self\<lparr>cursors := (cursors self)(name collab \<mapsto>
             get_threat_updates a (privacy_group collab) (Some (update_time ck)))\<rparr>)
          collab (get_threat_updates a (privacy_group collab) (Some (update_time ck)))"
    using cursor_for_fresh [OF n a, of "Some ck"] by (simp add: fetch_once_def)
next
  assume "priv_api self \<noteq> None"
  then show "cursors (snd (fetch_once now self sts collab ckpt)) (name collab) \<noteq> None"
    by (rule fetch_once_stores_cursor)
next
  assume c: "cursors self (name collab) = Some cur"
  show "fetch_once now self sts collab ckpt = read_batch now self collab cur"
    by (simp add: fetch_once_def cursor_for_cached [OF c])
  show "cursors (snd (fetch_once now self sts collab ckpt)) (name collab) \<noteq> None"
    using c by (simp add: fetch_once_keeps_entry)
next
  assume "cursors self (name collab) \<noteq> None" "map fst calls = map fst calls'"
  then show "fetch_calls self collab calls = fetch_calls self collab calls'"
    by (rule fetch_calls_any_checkpoint)
qed

lemma foldl_max_Max:
  "foldl (\<lambda>h u. max (time u) h) h0 b = Max (insert h0 (time ` set b))"
proof (induction b arbitrary: h0)
  case Nil
  show ?case by simp
next
  case (Cons u b)
  have "Max (insert (max (time u) h0) (time ` set b)) = Max (insert h0 (insert (time u) (time ` set b)))"
    by (cases "set b = {}") (simp_all add: max.commute max.left_commute max.assoc)
  then show ?case by (simp add: Cons.IH)
qed

lemma highest_time_Max: "highest_time b = Max (insert 0 (time ` set b))"
  by (simp add: highest_time_def foldl_max_Max)

lemma highest_time_mono:
  assumes "\<forall>u \<in> set b1. \<exists>v \<in> set b2. time u \<le> time v"
  shows "highest_time b1 \<le> highest_time b2"
proof -
  have "\<forall>x \<in> insert 0 (time ` set b1). x \<le> Max (insert 0 (time ` set b2))"
  proof
    fix x assume "x \<in> insert 0 (time ` set b1)"
    then consider "x = 0" | u where "u \<in> set b1" "x = time u" by auto
    then show "x \<le> Max (insert 0 (time ` set b2))"
    proof cases
      case 1 then show ?thesis by simp
    next
      case 2
      with assms obtain v where "v \<in> set b2" "time u \<le> time v" by blast
      then have "time v \<le> Max (insert 0 (time ` set b2))" by simp
      with 2 \<open>time u \<le> time v\<close> show ?thesis by simp
    qed
  qed
  then show ?thesis unfolding highest_time_Max by simp
qed

lemma read_batch_page:
  assumes "pages cur = p # ps"
  shows "read_batch now self collab cur =
    (Inr \<lparr>updates = foldl (\<lambda>d u. dict_set d (threat_type u, indicator u) (from_threatexchange_json u)) [] p,
          checkpoint = \<lparr>update_time = highest_time p, last_fetch_time = py_int now\<rparr>,
          delta_done = (ps = [])\<rparr>,
     self\<lparr>cursors := (cursors self)(name collab \<mapsto> cur\<lparr>pages := ps\<rparr>)\<rparr>)"
  using assms by (simp add: read_batch_def cursor_next_def cursor_done_def)

lemma fetch_calls_cached_pages:
  "cursors self (name collab) = Some cur \<Longrightarrow> length calls \<le> length (pages cur) \<Longrightarrow>
   \<exists>ds. fst (fetch_calls self collab calls) = map Inr ds
      \<and> map (\<lambda>d. get_progress_timestamp (checkpoint d)) ds
          = map highest_time (take (length calls) (pages cur))"
proof (induction calls arbitrary: self cur)
  case Nil
  show ?case by simp
next
  case (Cons c cs)
  from Cons.prems(2) obtain p ps where pg: "pages cur = p # ps"
    by (cases "pages cur") auto
  let ?self' = "self\<lparr>cursors := (cursors self)(name collab \<mapsto> cur\<lparr>pages := ps\<rparr>)\<rparr>"
  let ?d = "\<lparr>updates = foldl (\<lambda>d u. dict_set d (threat_type u, indicator u) (from_threatexchange_json u)) [] p,
          checkpoint = \<lparr>update_time = highest_time p, last_fetch_time = py_int (fst c)\<rparr>,
          delta_done = (ps = [])\<rparr>"
  have fo: "fetch_once (fst c) self [] collab (snd c) = (Inr ?d, ?self')"
    by (simp add: fetch_once_def cursor_for_cached [OF Cons.prems(1)] read_batch_page [OF pg])
  have c': "cursors ?self' (name collab) = Some (cur\<lparr>pages := ps\<rparr>)" by simp
  have len: "length cs \<le> length (pages (cur\<lparr>pages := ps\<rparr>))"
    using Cons.prems(2) pg by simp
  from Cons.IH [OF c' len] obtain ds where
    ds: "fst (fetch_calls ?self' collab cs) = map Inr ds"
      "map (\<lambda>d. get_progress_timestamp (checkpoint d)) ds = map highest_time (take (length cs) ps)"
    by auto
  show ?case
    apply (rule exI [of _ "?d # ds"])
    using ds by (simp add: fo Let_def pg get_progress_timestamp_def)
qed


lemma sorted_map_highest_time:
  assumes "\<forall>i. Suc i < length ps \<longrightarrow> (\<forall>u \<in> set (ps ! i). \<exists>v \<in> set (ps ! Suc i). time u \<le> time v)"
  shows "sorted (map highest_time ps)"
  unfolding sorted_iff_nth_Suc
  using assms by (auto intro: highest_time_mono)

text \<open>
  C1, as amended. For consecutive calls of \<open>fetch_once\<close> for one collaboration that
  read the pages of one cursor, each call returns a delta whose checkpoint timestamp is
  the largest of 0 and the update times of that call's batch; and the timestamps do not
  decrease along the calls when every update time of a batch is matched or exceeded by an
  update time of the next batch.
\<close>

theorem C1_checkpoint_is_batch_maximum:
  assumes "calls \<noteq> []"
    and "cursor_for self collab (snd (hd calls)) = Inr (cur, self')"
    and "length calls \<le> length (pages cur)"
  shows "\<exists>ds. fst (fetch_calls self collab calls) = map Inr ds
      \<and> map (\<lambda>d. get_progress_timestamp (checkpoint d)) ds
          = map (\<lambda>b. Max (insert 0 (time ` set b))) (take (length calls) (pages cur))
      \<and> ((\<forall>i. Suc i < length calls \<longrightarrow>
              (\<forall>u \<in> set (pages cur ! i). \<exists>v \<in> set (pages cur ! Suc i). time u \<le> time v))
           \<longrightarrow> sorted (map (\<lambda>d. get_progress_timestamp (checkpoint d)) ds))"
proof -
  from assms(1) obtain c cs where calls: "calls = c # cs" by (cases calls) auto
  from assms(2) have stored: "cursors self' (name collab) = Some cur"
    by (rule cursor_for_stores)
  have first: "fetch_once (fst c) self [] collab (snd c) = fetch_once (fst c) self' [] collab (snd c)"
    using assms(2) by (simp add: fetch_once_def calls cursor_for_cached [OF stored])
  have same: "fst (fetch_calls self collab calls) = fst (fetch_calls self' collab calls)"
    by (simp add: calls Let_def first)
  from fetch_calls_cached_pages [OF stored assms(3)] obtain ds where
    ds: "fst (fetch_calls self' collab calls) = map Inr ds"
      "map (\<lambda>d. get_progress_timestamp (checkpoint d)) ds
          = map highest_time (take (length calls) (pages cur))"
    by auto
  have mx: "map highest_time (take (length calls) (pages cur))
      = map (\<lambda>b. Max (insert 0 (time ` set b))) (take (length calls) (pages cur))"
    by (simp add: highest_time_Max)
  have srt: "sorted (map highest_time (take (length calls) (pages cur)))"
    if "\<forall>i. Suc i < length calls \<longrightarrow>
              (\<forall>u \<in> set (pages cur ! i). \<exists>v \<in> set (pages cur ! Suc i). time u \<le> time v)"
    by (rule sorted_map_highest_time) (use that assms(3) in auto)
  show ?thesis
  proof (intro exI [of _ ds] conjI impI)
    show "fst (fetch_calls self collab calls) = map Inr ds"
      using ds(1) same by simp
    show "map (\<lambda>d. get_progress_timestamp (checkpoint d)) ds
          = map (\<lambda>b. Max (insert 0 (time ` set b))) (take (length calls) (pages cur))"
      using ds(2) mx by simp
    assume "\<forall>i. Suc i < length calls \<longrightarrow>
              (\<forall>u \<in> set (pages cur ! i). \<exists>v \<in> set (pages cur ! Suc i). time u \<le> time v)"
    from srt [OF this] show "sorted (map (\<lambda>d. get_progress_timestamp (checkpoint d)) ds)"
      using ds(2) by simp
  qed
qed

lemmas fetch_eval =
  fetch_once_def cursor_for_def read_batch_def cursor_next_def cursor_done_def
  get_threat_updates_def api_property_def init_api_def highest_time_def
  get_progress_timestamp_def progress_of_def sample_collab_def update_at_def Let_def

text \<open>
  The claim C1 as stated fails: three consecutive calls within one pass return the
  checkpoint timestamps 5, 3 and 0, the last from the empty page that ends the pass.
\<close>

theorem C1_checkpoint_decreases_counterexample:
  "map progress_of (fst (fetch_calls lagging_connector sample_collab lagging_calls))
     = [Some (5, False), Some (3, False), Some (0, True)]"
  by (simp add: fetch_eval lagging_connector_def lagging_client_def lagging_calls_def)

lemma sample_cursor:
  "cursor_for sample_connector sample_collab (snd (hd sample_calls)) =
     Inr (\<lparr>pages = [[update_at 3], [update_at 5], [update_at 9]]\<rparr>,
          sample_connector\<lparr>cursors := (cursors sample_connector)(name sample_collab \<mapsto>
             \<lparr>pages = [[update_at 3], [update_at 5], [update_at 9]]\<rparr>)\<rparr>)"
  by (simp add: cursor_for_def api_property_def sample_connector_def init_api_def
      get_threat_updates_def sample_client_def sample_calls_def Let_def)

theorem C1_checkpoint_is_batch_maximum_witness:
  "sample_calls \<noteq> []
   \<and> length sample_calls \<le> length [[update_at 3], [update_at 5], [update_at 9]]
   \<and> (\<exists>ds. fst (fetch_calls sample_connector sample_collab sample_calls) = map Inr ds
         \<and> map (\<lambda>d. get_progress_timestamp (checkpoint d)) ds = [3, 5, 9]
         \<and> sorted (map (\<lambda>d. get_progress_timestamp (checkpoint d)) ds))"
proof -
  have h1: "sample_calls \<noteq> []" by (simp add: sample_calls_def)
  have h3: "length sample_calls \<le> length (pages \<lparr>pages = [[update_at 3], [update_at 5], [update_at 9]]\<rparr>)"
    by (simp add: sample_calls_def)
  have dom: "\<forall>i. Suc i < length sample_calls \<longrightarrow>
      (\<forall>u \<in> set (pages \<lparr>pages = [[update_at 3], [update_at 5], [update_at 9]]\<rparr> ! i).
         \<exists>v \<in> set (pages \<lparr>pages = [[update_at 3], [update_at 5], [update_at 9]]\<rparr> ! Suc i).
           time u \<le> time v)"
    by (auto simp: sample_calls_def less_Suc_eq update_at_def)
  from C1_checkpoint_is_batch_maximum [OF h1 sample_cursor h3] dom obtain ds where
    "fst (fetch_calls sample_connector sample_collab sample_calls) = map Inr ds"
    "map (\<lambda>d. get_progress_timestamp (checkpoint d)) ds
          = map (\<lambda>b. Max (insert 0 (time ` set b)))
              (take (length sample_calls) (pages \<lparr>pages = [[update_at 3], [update_at 5], [update_at 9]]\<rparr>))"
    "sorted (map (\<lambda>d. get_progress_timestamp (checkpoint d)) ds)"
    by blast
  then show ?thesis
    using h1 by (auto simp: sample_calls_def update_at_def)
qed

lemma sample_connector_fresh:
  "cursors sample_connector (name sample_collab) = None"
  "priv_api sample_connector = Some sample_client"
  by (simp_all add: sample_connector_def init_api_def)

theorem C5_start_time_and_cursor_reuse_witness:
  "cursors sample_connector (name sample_collab) = None
   \<and> priv_api sample_connector = Some sample_client
   \<and> progress_of (fst (fetch_once 1000 sample_connector [] sample_collab None)) = Some (3, False)
   \<and> progress_of (fst (fetch_once 1000 sample_connector [] sample_collab
         (Some \<lparr>update_time = 4, last_fetch_time = 900\<rparr>))) = Some (5, False)
   \<and> cursors (snd (fetch_once 1000 sample_connector [] sample_collab None)) (name sample_collab)
        \<noteq> None
   \<and> fetch_calls (snd (fetch_once 1000 sample_connector [] sample_collab None)) sample_collab
        [(1001, None)]
      = fetch_calls (snd (fetch_once 1000 sample_connector [] sample_collab None)) sample_collab
        [(1001, Some \<lparr>update_time = 3, last_fetch_time = 1000\<rparr>)]"
proof -
  note c5 = C5_start_time_and_cursor_reuse [of sample_connector sample_collab sample_client
      1000 "[]" "\<lparr>update_time = 4, last_fetch_time = 900\<rparr>" None]
  have api: "priv_api sample_connector \<noteq> None" by (simp add: sample_connector_fresh)
  from c5 sample_connector_fresh have
    a: "fetch_once 1000 sample_connector [] sample_collab None =
        read_batch 1000
          (sample_connector\<lparr>cursors := (cursors sample_connector)(name sample_collab \<mapsto>
             get_threat_updates sample_client (privacy_group sample_collab) None)\<rparr>)
          sample_collab (get_threat_updates sample_client (privacy_group sample_collab) None)"
    and b: "fetch_once 1000 sample_connector [] sample_collab (Some \<lparr>update_time = 4, last_fetch_time = 900\<rparr>) =
        read_batch 1000
          (sample_connector\<lparr>cursors := (cursors sample_connector)(name sample_collab \<mapsto>
             get_threat_updates sample_client (privacy_group sample_collab) (Some (update_time \<lparr>update_time = 4, last_fetch_time = 900\<rparr>)))\<rparr>)
          sample_collab (get_threat_updates sample_client (privacy_group sample_collab) (Some (update_time \<lparr>update_time = 4, last_fetch_time = 900\<rparr>)))"
    by blast+
  from c5 api have
    c: "cursors (snd (fetch_once 1000 sample_connector [] sample_collab None)) (name sample_collab) \<noteq> None"
    by blast
  from C5_start_time_and_cursor_reuse
      [of "snd (fetch_once 1000 sample_connector [] sample_collab None)" sample_collab _ _ _ _ _ _
        "[(1001, None)]" "[(1001, Some \<lparr>update_time = 3, last_fetch_time = 1000\<rparr>)]"] c
  have d: "fetch_calls (snd (fetch_once 1000 sample_connector [] sample_collab None)) sample_collab
        [(1001, None)]
      = fetch_calls (snd (fetch_once 1000 sample_connector [] sample_collab None)) sample_collab
        [(1001, Some \<lparr>update_time = 3, last_fetch_time = 1000\<rparr>)]"
    by simp
  have pa: "progress_of (fst (fetch_once 1000 sample_connector [] sample_collab None)) = Some (3, False)"
    unfolding a
    by (simp add: read_batch_def cursor_next_def cursor_done_def get_threat_updates_def
        sample_client_def highest_time_def get_progress_timestamp_def progress_of_def
        update_at_def)
  have pb: "progress_of (fst (fetch_once 1000 sample_connector [] sample_collab
         (Some \<lparr>update_time = 4, last_fetch_time = 900\<rparr>))) = Some (5, False)"
    unfolding b
    by (simp add: read_batch_def cursor_next_def cursor_done_def get_threat_updates_def
        sample_client_def highest_time_def get_progress_timestamp_def progress_of_def
        update_at_def)
  from sample_connector_fresh pa pb c d show ?thesis by blast
qed

subsection \<open>Claims about CliState\<close>

lemma get_all_collabs_sets_cache:
  assumes "get_all_collabs lib self dir = (Inr cs, self1)"
  shows "\<exists>c. cache self1 = Some c \<and> map snd c = cs"
  using assms
  by (auto simp: get_all_collabs_def Let_def split: option.splits sum.splits)

lemma get_all_collabs_cached:
  "cache self = Some c \<Longrightarrow> get_all_collabs lib self dir = (Inr (map snd c), self)"
  by (simp add: get_all_collabs_def)

lemma cli_step_keeps_cache:
  assumes "cache (fst w) = Some c"
  shows "cache (fst (cli_step lib w op)) = Some c"
proof (cases op)
  case (UpdateCollab x)
  then show ?thesis using assms
    by (auto simp: update_collab_def Let_def split: option.splits dir_entry.splits)
next
  case (DeleteCollab x)
  then show ?thesis using assms
    by (auto simp: delete_collab_def Let_def split: option.splits dir_entry.splits)
next
  case (DiskChange d)
  then show ?thesis using assms by simp
next
  case GetAllCollabs
  then show ?thesis using assms by (simp add: get_all_collabs_cached)
next
  case (GetCollab nm)
  then show ?thesis using assms by (simp add: get_collab_def get_all_collabs_cached)
qed

lemma cli_run_keeps_cache:
  "cache (fst w) = Some c \<Longrightarrow> cache (fst (cli_run lib w ops)) = Some c"
  unfolding cli_run_def
  by (induction ops arbitrary: w) (simp_all add: cli_step_keeps_cache)

text \<open>
  C10. Once \<open>get_all_collabs\<close> has returned, the cache holds the configs it returned,
  and after any sequence of later events (calls of \<open>update_collab\<close>,
  \<open>delete_collab\<close>, \<open>get_all_collabs\<close> and \<open>get_collab\<close> on the object, and any
  change of the files on disk) the cache is the same, \<open>get_all_collabs\<close> returns the
  same configs, \<open>get_collab\<close> searches them, and
  \<open>get_collab_names_without_loading\<close> returns the keys of the cache.
\<close>

theorem C10_collabs_cached_for_lifetime:
  assumes "get_all_collabs lib self dir = (Inr cs, self1)"
  shows "\<exists>c. cache self1 = Some c \<and> map snd c = cs
     \<and> cache (fst (cli_run lib (self1, dir) ops)) = Some c
     \<and> get_all_collabs lib (fst (cli_run lib (self1, dir) ops)) (snd (cli_run lib (self1, dir) ops))
          = (Inr cs, fst (cli_run lib (self1, dir) ops))
     \<and> get_collab lib (fst (cli_run lib (self1, dir) ops)) (snd (cli_run lib (self1, dir) ops)) nm
          = (Inr (find (\<lambda>x. name x = nm) cs), fst (cli_run lib (self1, dir) ops))
     \<and> get_collab_names_without_loading (fst (cli_run lib (self1, dir) ops))
          (snd (cli_run lib (self1, dir) ops)) = map fst c"
proof -
  from get_all_collabs_sets_cache [OF assms] obtain c where
    c: "cache self1 = Some c" "map snd c = cs" by auto
  let ?w = "cli_run lib (self1, dir) ops"
  have k: "cache (fst ?w) = Some c"
    by (rule cli_run_keeps_cache) (simp add: c)
  show ?thesis
    apply (rule exI [of _ c])
    using c k
    by (simp add: get_all_collabs_cached get_collab_def get_collab_names_without_loading_def)
qed

lemmas cli_eval =
  get_all_collabs_def load_collab_file_def ctype_of_def glob_json_def
  update_collab_def delete_collab_def path_for_collab_config_def cli_run_def
  sample_lib_def sample_state_def sample_dir_def sample_ops_def sample_base_def
  suffix_to_prefix Let_def

lemma sample_loaded:
  "get_all_collabs sample_lib sample_state sample_dir =
     (Inr [sample_base], sample_state\<lparr>cache := Some [(''Sample'', sample_base)]\<rparr>)"
  by (simp add: cli_eval)

lemma sample_disk_after:
  "snd (cli_run sample_lib (sample_state\<lparr>cache := Some [(''Sample'', sample_base)]\<rparr>, sample_dir)
        sample_ops) =
     [(''broken.json'', RegularFile ''{''),
      (''notes.txt'', RegularFile ''Notes''),
      (''old.json'', Directory),
      (''Other.json'', RegularFile ''Other'')]"
  by (simp add: cli_eval)

lemma sample_fresh_after:
  "fst (get_all_collabs sample_lib sample_state
     [(''broken.json'', RegularFile ''{''),
      (''notes.txt'', RegularFile ''Notes''),
      (''old.json'', Directory),
      (''Other.json'', RegularFile ''Other'')]) = Inr [sample_base\<lparr>name := ''Other''\<rparr>]"
  by (simp add: cli_eval)

theorem C10_collabs_cached_for_lifetime_witness:
  "get_all_collabs sample_lib sample_state sample_dir =
     (Inr [sample_base], sample_state\<lparr>cache := Some [(''Sample'', sample_base)]\<rparr>)
   \<and> fst (get_all_collabs sample_lib
        (fst (cli_run sample_lib
           (sample_state\<lparr>cache := Some [(''Sample'', sample_base)]\<rparr>, sample_dir) sample_ops))
        (snd (cli_run sample_lib
           (sample_state\<lparr>cache := Some [(''Sample'', sample_base)]\<rparr>, sample_dir) sample_ops)))
      = Inr [sample_base]
   \<and> fst (get_collab sample_lib
        (fst (cli_run sample_lib
           (sample_state\<lparr>cache := Some [(''Sample'', sample_base)]\<rparr>, sample_dir) sample_ops))
        (snd (cli_run sample_lib
           (sample_state\<lparr>cache := Some [(''Sample'', sample_base)]\<rparr>, sample_dir) sample_ops))
        ''Other'') = Inr None
   \<and> get_collab_names_without_loading
        (fst (cli_run sample_lib
           (sample_state\<lparr>cache := Some [(''Sample'', sample_base)]\<rparr>, sample_dir) sample_ops))
        (snd (cli_run sample_lib
           (sample_state\<lparr>cache := Some [(''Sample'', sample_base)]\<rparr>, sample_dir) sample_ops))
      = [''Sample'']"
proof -
  from C10_collabs_cached_for_lifetime [OF sample_loaded, of sample_ops "''Other''"]
  obtain c where c: "cache (sample_state\<lparr>cache := Some [(''Sample'', sample_base)]\<rparr>) = Some c"
    and rest: "get_all_collabs sample_lib
        (fst (cli_run sample_lib
           (sample_state\<lparr>cache := Some [(''Sample'', sample_base)]\<rparr>, sample_dir) sample_ops))
        (snd (cli_run sample_lib
           (sample_state\<lparr>cache := Some [(''Sample'', sample_base)]\<rparr>, sample_dir) sample_ops))
      = (Inr [sample_base], fst (cli_run sample_lib
           (sample_state\<lparr>cache := Some [(''Sample'', sample_base)]\<rparr>, sample_dir) sample_ops))"
      "get_collab sample_lib
        (fst (cli_run sample_lib
           (sample_state\<lparr>cache := Some [(''Sample'', sample_base)]\<rparr>, sample_dir) sample_ops))
        (snd (cli_run sample_lib
           (sample_state\<lparr>cache := Some [(''Sample'', sample_base)]\<rparr>, sample_dir) sample_ops))
        ''Other''
      = (Inr (find (\<lambda>x. name x = ''Other'') [sample_base]), fst (cli_run sample_lib
           (sample_state\<lparr>cache := Some [(''Sample'', sample_base)]\<rparr>, sample_dir) sample_ops))"
      "get_collab_names_without_loading
        (fst (cli_run sample_lib
           (sample_state\<lparr>cache := Some [(''Sample'', sample_base)]\<rparr>, sample_dir) sample_ops))
        (snd (cli_run sample_lib
           (sample_state\<lparr>cache := Some [(''Sample'', sample_base)]\<rparr>, sample_dir) sample_ops))
      = map fst c"
    by blast
  from c have "c = [(''Sample'', sample_base)]" by simp
  with rest sample_loaded show ?thesis by (simp add: sample_base_def)
qed

end
